theory Spec2Isabelle
  imports Complex_Main
begin

section \<open>JavaScript strings\<close>

text \<open>
  A JavaScript string is a sequence of UTF-16 code units. The exporter works on glyphs
  outside ASCII (the bullet, the check boxes, the Greek letters of the LaTeX table), so a
  string is modelled as the list of its code units, each a natural number. \<open>js\<close> turns an
  ASCII literal into such a string and \<open>macro\<close> is the same literal behind a backslash
  (code unit 92), the way the keys of \<open>LATEX_TO_UNICODE\<close> are written.
\<close>

type_synonym jstring = "nat list"

definition js :: "string \<Rightarrow> jstring" where
  "js = map of_char"

definition macro :: "string \<Rightarrow> jstring" where
  "macro name = 92 # js name"

text \<open>
  \<open>String.prototype.trim\<close> removes the code units of ECMAScript's WhiteSpace and
  LineTerminator productions from both ends.
\<close>

definition isWhiteSpace :: "nat \<Rightarrow> bool" where
  "isWhiteSpace c \<longleftrightarrow>
     c = 9 \<or> c = 10 \<or> c = 11 \<or> c = 12 \<or> c = 13 \<or> c = 32 \<or> c = 160 \<or> c = 5760 \<or>
     (8192 \<le> c \<and> c \<le> 8202) \<or> c = 8232 \<or> c = 8233 \<or> c = 8239 \<or> c = 8287 \<or>
     c = 12288 \<or> c = 65279"

definition trim :: "jstring \<Rightarrow> jstring" where
  "trim s = rev (dropWhile isWhiteSpace (rev (dropWhile isWhiteSpace s)))"

text \<open>\<open>s.split('\n')\<close>: the pieces between line feeds; the empty string gives one empty piece.\<close>

fun splitLines :: "jstring \<Rightarrow> jstring list" where
  "splitLines [] = [] # []"
| "splitLines (c # cs) =
     (if c = 10 then [] # splitLines cs
      else (case splitLines cs of [] \<Rightarrow> [c] # [] | l # ls \<Rightarrow> (c # l) # ls))"

text \<open>The decimal digits of a number, as a template literal prints a non-negative integer.\<close>

fun decimal :: "nat \<Rightarrow> jstring" where
  "decimal n = (if n < 10 then [48 + n] else decimal (n div 10) @ [48 + n mod 10])"

declare decimal.simps [simp del]

section \<open>The LaTeX normalizer\<close>

text \<open>
  \<open>LATEX_TO_UNICODE\<close>, in the order of the object literal, which is the order
  \<open>Object.entries\<close> iterates in.
\<close>

definition LATEX_TO_UNICODE :: "(jstring \<times> jstring) list" where
  "LATEX_TO_UNICODE =
    [(macro ''rightarrow'', [8594]), (macro ''leftarrow'', [8592]), (macro ''uparrow'', [8593]),
     (macro ''downarrow'', [8595]),
     (macro ''leftrightarrow'', [8596]), (macro ''Rightarrow'', [8658]),
     (macro ''Leftarrow'', [8656]), (macro ''to'', [8594]),
     (macro ''leq'', [8804]), (macro ''geq'', [8805]), (macro ''neq'', [8800]),
     (macro ''approx'', [8776]),
     (macro ''alpha'', [945]), (macro ''beta'', [946]), (macro ''gamma'', [947]),
     (macro ''delta'', [948]),
     (macro ''theta'', [952]), (macro ''lambda'', [955]), (macro ''mu'', [956]),
     (macro ''pi'', [960]), (macro ''sigma'', [963]),
     (macro ''phi'', [966]), (macro ''omega'', [969]), (macro ''Sigma'', [931]),
     (macro ''Omega'', [937]),
     (macro ''star'', [9733]), (macro ''square'', [9633]), (macro ''bullet'', [8226]),
     (macro ''circ'', [9675]),
     (macro ''times'', [215]), (macro ''div'', [247]), (macro ''pm'', [177]),
     (macro ''infty'', [8734]),
     (macro ''forall'', [8704]), (macro ''exists'', [8707]), (macro ''in'', [8712]),
     (macro ''sum'', [931]),
     (macro ''checkmark'', [10003]), (macro ''ldots'', [8230]), (macro ''degree'', [176])]"

text \<open>
  \<open>result.replace(new RegExp(cmd.replace(/\\/g, '\\\\'), 'g'), unicode)\<close>: the key's
  backslash is escaped and its other characters are letters, so the expression matches the
  key literally; with the \<open>g\<close> flag every occurrence is replaced, scanning from the left
  and resuming after each match. No value of the table contains a dollar sign, so the
  replacement is inserted as it is. The table has no empty key; for one the model leaves
  the text alone.
\<close>

function replaceAll :: "jstring \<Rightarrow> jstring \<Rightarrow> jstring \<Rightarrow> jstring" where
  "replaceAll pat rep [] = []"
| "replaceAll pat rep (c # cs) =
     (if pat \<noteq> [] \<and> take (length pat) (c # cs) = pat
      then rep @ replaceAll pat rep (drop (length pat) (c # cs))
      else c # replaceAll pat rep cs)"
  by pat_completeness auto
termination
  by (relation "measure (\<lambda>(pat, rep, s). length s)") auto

text \<open>\<open>.replace(/\\[a-zA-Z]+/g, '')\<close>: a backslash and the longest run of letters after it,
  when there is at least one letter, are deleted.\<close>

definition isLetter :: "nat \<Rightarrow> bool" where
  "isLetter c \<longleftrightarrow> (65 \<le> c \<and> c \<le> 90) \<or> (97 \<le> c \<and> c \<le> 122)"

function stripMacros :: "jstring \<Rightarrow> jstring" where
  "stripMacros [] = []"
| "stripMacros (c # cs) =
     (if c = 92 \<and> takeWhile isLetter cs \<noteq> []
      then stripMacros (dropWhile isLetter cs)
      else c # stripMacros cs)"
  by pat_completeness auto
termination
  by (relation "measure length") (auto simp: length_dropWhile_le less_Suc_eq_le)

text \<open>\<open>.replace(/[{}]/g, '')\<close>\<close>

definition stripBraces :: "jstring \<Rightarrow> jstring" where
  "stripBraces s = filter (\<lambda>c. c \<noteq> 123 \<and> c \<noteq> 125) s"

text \<open>
  The callback of \<open>convertLatexToUnicode\<close>, applied to the text captured between two
  dollar signs. The table is a parameter so that its order can be varied;
  \<open>convertLatexToUnicode\<close> fixes it to \<open>LATEX_TO_UNICODE\<close>. An empty string is falsy, so
  \<open>|| latex\<close> returns the captured text when nothing is left.
\<close>

definition applyTable :: "(jstring \<times> jstring) list \<Rightarrow> jstring \<Rightarrow> jstring" where
  "applyTable tbl s = foldl (\<lambda>result (cmd, unicode). replaceAll cmd unicode result) s tbl"

definition normalizeSpan :: "(jstring \<times> jstring) list \<Rightarrow> jstring \<Rightarrow> jstring" where
  "normalizeSpan tbl latex =
     (let result = applyTable tbl (trim latex);
          stripped = trim (stripBraces (stripMacros result))
      in if stripped \<noteq> [] then stripped else latex)"

text \<open>
  \<open>text.replace(/\$([^$]+)\$/g, f)\<close>: at a dollar sign followed by at least one
  character other than a dollar sign and then a dollar sign, the span is replaced by what
  \<open>f\<close> returns for the characters in between, and the scan resumes after the closing
  dollar sign; any other character is copied.
\<close>

function replaceSpans :: "(jstring \<Rightarrow> jstring) \<Rightarrow> jstring \<Rightarrow> jstring" where
  "replaceSpans f [] = []"
| "replaceSpans f (c # cs) =
     (if c = 36 \<and> takeWhile (\<lambda>d. d \<noteq> 36) cs \<noteq> [] \<and> dropWhile (\<lambda>d. d \<noteq> 36) cs \<noteq> []
      then f (takeWhile (\<lambda>d. d \<noteq> 36) cs) @ replaceSpans f (tl (dropWhile (\<lambda>d. d \<noteq> 36) cs))
      else c # replaceSpans f cs)"
  by pat_completeness auto
termination
  by (relation "measure (\<lambda>(f, s). length s)")
     (auto simp: length_dropWhile_le less_Suc_eq_le intro: le_trans [OF diff_le_self])

definition convertLatexWith :: "(jstring \<times> jstring) list \<Rightarrow> jstring \<Rightarrow> jstring" where
  "convertLatexWith tbl text = replaceSpans (normalizeSpan tbl) text"

definition convertLatexToUnicode :: "jstring \<Rightarrow> jstring" where
  "convertLatexToUnicode text = convertLatexWith LATEX_TO_UNICODE text"

section \<open>The document tree\<close>

text \<open>
  The tree that \<open>DOMParser\<close> builds: text nodes, comment nodes (any node that is
  neither text nor element behaves like one here) and elements with a tag name, attributes
  and children. The source reads a tag name only through \<open>tagName.toLowerCase()\<close>; the
  tree stores that lower-case name. A tree has no parent pointers, so a function that asks
  for \<open>parentElement\<close> takes the parent's tag name as an argument.
\<close>

datatype node =
    Text jstring
  | Comment jstring
  | Element string "(string \<times> jstring) list" "node list"

fun tagName :: "node \<Rightarrow> string" where
  "tagName (Element tag attrs cs) = tag"
| "tagName (Text t) = []"
| "tagName (Comment t) = []"

fun childNodes :: "node \<Rightarrow> node list" where
  "childNodes (Element tag attrs cs) = cs"
| "childNodes (Text t) = []"
| "childNodes (Comment t) = []"

fun isElement :: "node \<Rightarrow> bool" where
  "isElement (Element tag attrs cs) = True"
| "isElement (Text t) = False"
| "isElement (Comment t) = False"

definition hasAttribute :: "node \<Rightarrow> string \<Rightarrow> bool" where
  "hasAttribute n name =
     (case n of Element tag attrs cs \<Rightarrow> map_of attrs name \<noteq> None | _ \<Rightarrow> False)"

definition getAttribute :: "node \<Rightarrow> string \<Rightarrow> jstring option" where
  "getAttribute n name = (case n of Element tag attrs cs \<Rightarrow> map_of attrs name | _ \<Rightarrow> None)"

text \<open>\<open>textContent\<close>: the data of a text or comment node; for an element, the text of
  its descendant text nodes in document order, comments left out.\<close>

fun descendantText :: "node \<Rightarrow> jstring" where
  "descendantText (Text t) = t"
| "descendantText (Comment t) = []"
| "descendantText (Element tag attrs cs) = concat (map descendantText cs)"

definition textContent :: "node \<Rightarrow> jstring" where
  "textContent n = (case n of Comment t \<Rightarrow> t | _ \<Rightarrow> descendantText n)"

text \<open>The descendant elements of a node in document order, each with the tag name of its
  parent element.\<close>

fun descendants :: "node \<Rightarrow> (string \<times> node) list" where
  "descendants (Element tag attrs cs) =
     concat (map (\<lambda>c. (if isElement c then [(tag, c)] else []) @ descendants c) cs)"
| "descendants (Text t) = []"
| "descendants (Comment t) = []"

text \<open>\<open>querySelectorAll\<close> for a selector that is a list of tag names, such as
  \<open>'th, td'\<close>.\<close>

definition querySelectorAll :: "string list \<Rightarrow> node \<Rightarrow> (string \<times> node) list" where
  "querySelectorAll tags n = filter (\<lambda>(parent, e). tagName e \<in> set tags) (descendants n)"

text \<open>\<open>querySelector('input[type="checkbox"]')\<close>: the first descendant \<open>input\<close> element
  whose \<open>type\<close> attribute is \<open>checkbox\<close> (HTML compares this attribute's value without
  regard to case; the tree stores it in lower case).\<close>

definition querySelector_checkbox :: "node \<Rightarrow> node option" where
  "querySelector_checkbox n =
     (case filter (\<lambda>(parent, e). tagName e = ''input'' \<and> getAttribute e ''type'' = Some (js ''checkbox''))
             (descendants n)
      of [] \<Rightarrow> None | (parent, e) # rest \<Rightarrow> Some e)"

text \<open>
  \<open>extractText\<close>. The first argument is the tag name of the node's parent element, which
  decides whether a \<open>code\<close> element is inline code (96 is the backtick).
\<close>

fun extractText :: "string \<Rightarrow> nat \<Rightarrow> node \<Rightarrow> jstring" where
  "extractText parent depth (Text t) = t"
| "extractText parent depth (Comment t) = (if depth > 50 then t else [])"
| "extractText parent depth (Element tag attrs cs) =
     (if depth > 50 then textContent (Element tag attrs cs)
      else if tag = ''code'' \<and> parent \<noteq> ''pre'' then 96 # textContent (Element tag attrs cs) @ [96]
      else concat (map (extractText tag (depth + 1)) cs))"

section \<open>The drawing surface\<close>

text \<open>
  The \<open>jsPDF\<close> document is a collaborator. The model keeps what the layout reads and
  writes: the page size, the number of pages (the last page is the current one, since the
  source never calls \<open>setPage\<close>), the graphics state that the setters change, and the
  drawing calls in the order they were made, each with the page it went to and the
  graphics state it was drawn with.
\<close>

type_synonym rgb = "nat \<times> nat \<times> nat"

record graphics =
  fontFamily :: string
  fontStyle :: string
  fontSize :: real
  textColor :: rgb
  fillColor :: rgb
  drawColor :: rgb
  lineWidth :: real

datatype paint = Fill | Stroke

datatype drawop =
    DrawText jstring real real
  | DrawLine real real real real
  | DrawRect real real real real paint
  | DrawRoundedRect real real real real real real paint

record entry =
  onPage :: nat
  pen :: graphics
  shape :: drawop

record jsPDF =
  pageWidth :: real
  pageHeight :: real
  pageCount :: nat
  gfx :: graphics
  drawn :: "entry list"

definition addPage :: "'a jsPDF_scheme \<Rightarrow> 'a jsPDF_scheme" where
  "addPage d = d\<lparr>pageCount := Suc (pageCount d)\<rparr>"

definition setFontSize :: "real \<Rightarrow> 'a jsPDF_scheme \<Rightarrow> 'a jsPDF_scheme" where
  "setFontSize sz d = d\<lparr>gfx := (gfx d)\<lparr>fontSize := sz\<rparr>\<rparr>"

definition setFont :: "string \<Rightarrow> string \<Rightarrow> 'a jsPDF_scheme \<Rightarrow> 'a jsPDF_scheme" where
  "setFont family style d = d\<lparr>gfx := (gfx d)\<lparr>fontFamily := family, fontStyle := style\<rparr>\<rparr>"

definition setTextColor :: "rgb \<Rightarrow> 'a jsPDF_scheme \<Rightarrow> 'a jsPDF_scheme" where
  "setTextColor c d = d\<lparr>gfx := (gfx d)\<lparr>textColor := c\<rparr>\<rparr>"

definition setFillColor :: "rgb \<Rightarrow> 'a jsPDF_scheme \<Rightarrow> 'a jsPDF_scheme" where
  "setFillColor c d = d\<lparr>gfx := (gfx d)\<lparr>fillColor := c\<rparr>\<rparr>"

definition setDrawColor :: "rgb \<Rightarrow> 'a jsPDF_scheme \<Rightarrow> 'a jsPDF_scheme" where
  "setDrawColor c d = d\<lparr>gfx := (gfx d)\<lparr>drawColor := c\<rparr>\<rparr>"

definition setLineWidth :: "real \<Rightarrow> 'a jsPDF_scheme \<Rightarrow> 'a jsPDF_scheme" where
  "setLineWidth w d = d\<lparr>gfx := (gfx d)\<lparr>lineWidth := w\<rparr>\<rparr>"

definition emit :: "drawop \<Rightarrow> 'a jsPDF_scheme \<Rightarrow> 'a jsPDF_scheme" where
  "emit op d = d\<lparr>drawn := drawn d @ [\<lparr>onPage = pageCount d, pen = gfx d, shape = op\<rparr>]\<rparr>"

definition doc_text :: "jstring \<Rightarrow> real \<Rightarrow> real \<Rightarrow> 'a jsPDF_scheme \<Rightarrow> 'a jsPDF_scheme" where
  "doc_text str x0 y0 d = emit (DrawText str x0 y0) d"

definition doc_line :: "real \<Rightarrow> real \<Rightarrow> real \<Rightarrow> real \<Rightarrow> 'a jsPDF_scheme \<Rightarrow> 'a jsPDF_scheme" where
  "doc_line x1 y1 x2 y2 d = emit (DrawLine x1 y1 x2 y2) d"

definition doc_rect ::
  "real \<Rightarrow> real \<Rightarrow> real \<Rightarrow> real \<Rightarrow> paint \<Rightarrow> 'a jsPDF_scheme \<Rightarrow> 'a jsPDF_scheme" where
  "doc_rect x0 y0 w h style d = emit (DrawRect x0 y0 w h style) d"

definition doc_roundedRect ::
  "real \<Rightarrow> real \<Rightarrow> real \<Rightarrow> real \<Rightarrow> real \<Rightarrow> real \<Rightarrow> paint \<Rightarrow> 'a jsPDF_scheme \<Rightarrow> 'a jsPDF_scheme" where
  "doc_roundedRect x0 y0 w h rx ry style d = emit (DrawRoundedRect x0 y0 w h rx ry style) d"

text \<open>
  \<open>doc.splitTextToSize\<close> belongs to the library: a parameter of the model. What it
  returns depends on the text, the width and the font in force (family, style, size).
\<close>

type_synonym splitter = "string \<Rightarrow> string \<Rightarrow> real \<Rightarrow> jstring \<Rightarrow> real \<Rightarrow> jstring list"

definition splitTextToSize :: "splitter \<Rightarrow> 'a jsPDF_scheme \<Rightarrow> jstring \<Rightarrow> real \<Rightarrow> jstring list" where
  "splitTextToSize sp d str w =
     sp (fontFamily (gfx d)) (fontStyle (gfx d)) (fontSize (gfx d)) str w"

section \<open>The layout engine\<close>

definition MARGIN :: real where
  "MARGIN = 50"

definition FONT_SIZE_H1 :: real where "FONT_SIZE_H1 = 24"
definition FONT_SIZE_H2 :: real where "FONT_SIZE_H2 = 18"
definition FONT_SIZE_H3 :: real where "FONT_SIZE_H3 = 14"
definition FONT_SIZE_H4 :: real where "FONT_SIZE_H4 = 12"
definition FONT_SIZE_BODY :: real where "FONT_SIZE_BODY = 11"
definition FONT_SIZE_CODE :: real where "FONT_SIZE_CODE = 10"

text \<open>
  The variables that the closures of \<open>renderToPdf\<close> share: the document \<open>doc\<close> and the
  local variables \<open>y\<close> (here \<open>cursor_y\<close>), \<open>listDepth\<close> and \<open>listCounters\<close>. Numbers are
  exact reals; the rounding of JavaScript's doubles is not modelled.
\<close>

record layout = jsPDF +
  cursor_y :: real
  listDepth :: int
  listCounters :: "nat list"

definition contentWidth :: "'a jsPDF_scheme \<Rightarrow> real" where
  "contentWidth d = pageWidth d - MARGIN * 2"

definition checkPageBreak :: "real \<Rightarrow> layout \<Rightarrow> layout" where
  "checkPageBreak neededHeight s =
     (if cursor_y s + neededHeight > pageHeight s - MARGIN
      then (addPage s)\<lparr>cursor_y := MARGIN\<rparr>
      else s)"

definition getLineHeight :: "real \<Rightarrow> real" where
  "getLineHeight sz = sz * 1.4"

definition addSpace :: "real \<Rightarrow> layout \<Rightarrow> layout" where
  "addSpace points s = s\<lparr>cursor_y := cursor_y s + points\<rparr>"

record options =
  bold :: bool
  italic :: bool
  indent :: real
  prefix :: jstring
  color :: rgb

definition defaults :: options where
  "defaults = \<lparr>bold = False, italic = False, indent = 0, prefix = [], color = (0, 0, 0)\<rparr>"

text \<open>The loop of \<open>renderText\<close> over the wrapped lines.\<close>

fun renderLines :: "jstring list \<Rightarrow> real \<Rightarrow> real \<Rightarrow> layout \<Rightarrow> layout" where
  "renderLines [] textX lineHeight s = s"
| "renderLines (l # ls) textX lineHeight s =
     (let s1 = checkPageBreak lineHeight s;
          s2 = doc_text l textX (cursor_y s1) s1
      in renderLines ls textX lineHeight (s2\<lparr>cursor_y := cursor_y s2 + lineHeight\<rparr>))"

definition renderText :: "splitter \<Rightarrow> jstring \<Rightarrow> real \<Rightarrow> options \<Rightarrow> layout \<Rightarrow> layout" where
  "renderText sp str sz opts s =
     (let s1 = setFontSize sz s;
          style = (if bold opts then (if italic opts then ''bolditalic'' else ''bold'')
                   else (if italic opts then ''italic'' else ''normal''));
          s2 = setFont ''helvetica'' style s1;
          s3 = setTextColor (color opts) s2;
          lineHeight = getLineHeight sz;
          x0 = MARGIN + indent opts;
          availableWidth = contentWidth s3 - indent opts;
          s4 = (if prefix opts \<noteq> []
                then (let s' = checkPageBreak lineHeight s3
                      in doc_text (prefix opts) x0 (cursor_y s') s')
                else s3);
          textIndent = (if prefix opts \<noteq> [] then 15 else 0);
          textWidth = availableWidth - textIndent;
          textX = x0 + textIndent;
          lines = splitTextToSize sp s4 str textWidth;
          s5 = renderLines lines textX lineHeight s4
      in setTextColor (0, 0, 0) s5)"

text \<open>The cases \<open>h1\<close> to \<open>h6\<close> differ in three numbers only.\<close>

definition heading ::
  "splitter \<Rightarrow> real \<Rightarrow> real \<Rightarrow> real \<Rightarrow> string \<Rightarrow> node \<Rightarrow> layout \<Rightarrow> layout" where
  "heading sp spaceBefore sz spaceAfter parent n s =
     (let s1 = addSpace spaceBefore s;
          str = trim (extractText parent 0 n);
          s2 = (if str \<noteq> [] then renderText sp str sz (defaults\<lparr>bold := True\<rparr>) s1 else s1)
      in addSpace spaceAfter s2)"

definition paragraphBlock :: "splitter \<Rightarrow> string \<Rightarrow> node \<Rightarrow> layout \<Rightarrow> layout" where
  "paragraphBlock sp parent n s =
     (let str = trim (extractText parent 0 n)
      in if str \<noteq> []
         then addSpace 8 (renderText sp str FONT_SIZE_BODY
                (defaults\<lparr>indent := real_of_int (listDepth s) * 20\<rparr>) s)
         else s)"

text \<open>Entering and leaving a \<open>ul\<close> or \<open>ol\<close>, around the walk over its children.\<close>

definition enterList :: "layout \<Rightarrow> layout" where
  "enterList s = s\<lparr>listDepth := listDepth s + 1, listCounters := listCounters s @ [0]\<rparr>"

definition exitList :: "layout \<Rightarrow> layout" where
  "exitList s =
     (let s1 = s\<lparr>listCounters := butlast (listCounters s), listDepth := listDepth s - 1\<rparr>
      in if listDepth s1 = 0 then addSpace 6 s1 else s1)"

text \<open>
  The \<open>li\<close> case up to the walk over the nested lists. On an empty \<open>listCounters\<close>,
  \<open>listCounters[listCounters.length - 1]++\<close> stores \<open>NaN\<close> under the key \<open>-1\<close>, which
  is no element of the array, and \<open>counter\<close> is \<open>NaN\<close>: the stack stays empty and the
  counter is \<open>None\<close>.
\<close>

definition showCounter :: "nat option \<Rightarrow> jstring" where
  "showCounter counter = (case counter of None \<Rightarrow> js ''NaN'' | Some k \<Rightarrow> decimal k)"

definition directText :: "node \<Rightarrow> jstring" where
  "directText n =
     concat (map (\<lambda>child. case child of
                     Text t \<Rightarrow> t
                   | Comment t \<Rightarrow> []
                   | Element childTag attrs cs \<Rightarrow>
                       if childTag \<noteq> ''ul'' \<and> childTag \<noteq> ''ol''
                       then extractText (tagName n) 0 child else [])
            (childNodes n))"

definition itemPrefix :: "string \<Rightarrow> node \<Rightarrow> nat option \<Rightarrow> jstring" where
  "itemPrefix parent n counter =
     (let isOrdered = (parent = ''ol'')
      in case querySelector_checkbox n of
           Some checkbox \<Rightarrow> if hasAttribute checkbox ''checked'' then [9745] else [9744]
         | None \<Rightarrow> if isOrdered then showCounter counter @ js ''.'' else [8226])"

definition listItem :: "splitter \<Rightarrow> string \<Rightarrow> node \<Rightarrow> layout \<Rightarrow> layout" where
  "listItem sp parent n s =
     (let cs = listCounters s;
          s1 = (if cs = [] then s else s\<lparr>listCounters := butlast cs @ [Suc (last cs)]\<rparr>);
          counter = (if cs = [] then None else Some (Suc (last cs)));
          pfx = itemPrefix parent n counter;
          str = directText n;
          ind = (real_of_int (listDepth s1) - 1) * 20
      in if trim str \<noteq> []
         then renderText sp (trim str) FONT_SIZE_BODY (defaults\<lparr>indent := ind, prefix := pfx\<rparr>) s1
         else s1)"

definition blockquote :: "splitter \<Rightarrow> string \<Rightarrow> node \<Rightarrow> layout \<Rightarrow> layout" where
  "blockquote sp parent n s =
     (let str = trim (extractText parent 0 n)
      in if str \<noteq> []
         then (let s1 = addSpace 8 s;
                   startY = cursor_y s1;
                   s2 = renderText sp str FONT_SIZE_BODY
                          (defaults\<lparr>italic := True, indent := 20, color := (100, 100, 100)\<rparr>) s1;
                   s3 = setLineWidth 3 (setDrawColor (180, 180, 180) s2);
                   s4 = doc_line (MARGIN + 8) (startY - 10) (MARGIN + 8) (cursor_y s3 - 5) s3
               in addSpace 8 s4)
         else s)"

text \<open>The loop of the \<open>pre\<close> case; \<open>line || ' '\<close> draws a space for an empty line.\<close>

fun codeLines :: "jstring list \<Rightarrow> real \<Rightarrow> layout \<Rightarrow> layout" where
  "codeLines [] lineHeight s = s"
| "codeLines (l # ls) lineHeight s =
     (let s1 = checkPageBreak lineHeight s;
          s2 = doc_text (if l \<noteq> [] then l else [32]) (MARGIN + 10) (cursor_y s1) s1
      in codeLines ls lineHeight (s2\<lparr>cursor_y := cursor_y s2 + lineHeight\<rparr>))"

definition preBlock :: "node \<Rightarrow> layout \<Rightarrow> layout" where
  "preBlock n s =
     (let code = trim (textContent n)
      in if code \<noteq> []
         then (let s1 = addSpace 8 s;
                   lines = splitLines code;
                   lineHeight = getLineHeight FONT_SIZE_CODE;
                   blockHeight = real (length lines) * lineHeight + 20;
                   s2 = checkPageBreak (min blockHeight 100) s1;
                   s3 = setFillColor (245, 245, 245) s2;
                   s4 = doc_roundedRect MARGIN (cursor_y s3 - 5) (contentWidth s3) blockHeight 4 4 Fill s3;
                   s5 = setFontSize FONT_SIZE_CODE (setFont ''courier'' ''normal'' s4);
                   s6 = s5\<lparr>cursor_y := cursor_y s5 + 10\<rparr>;
                   s7 = codeLines lines lineHeight s6;
                   s8 = s7\<lparr>cursor_y := cursor_y s7 + 10\<rparr>
               in addSpace 8 s8)
         else s)"

text \<open>The \<open>table\<close> case: one cell, one row, the whole table. \<open>firstLine\<close> is
  \<open>lines[0] || ''\<close>.\<close>

definition firstLine :: "jstring list \<Rightarrow> jstring" where
  "firstLine lines = (case lines of [] \<Rightarrow> [] | l # ls \<Rightarrow> l)"

definition tableCell ::
  "splitter \<Rightarrow> bool \<Rightarrow> real \<Rightarrow> real \<Rightarrow> nat \<Rightarrow> string \<times> node \<Rightarrow> layout \<Rightarrow> layout" where
  "tableCell sp isHeader colWidth rowHeight i cell s =
     (let s1 = setFontSize FONT_SIZE_BODY s;
          s2 = setFont ''helvetica'' (if isHeader then ''bold'' else ''normal'') s1;
          str = trim (extractText (fst cell) 0 (snd cell));
          truncated = firstLine (splitTextToSize sp s2 str (colWidth - 10))
      in doc_text truncated (MARGIN + real i * colWidth + 5) (cursor_y s2 + rowHeight / 2 + 3) s2)"

fun tableCells ::
  "splitter \<Rightarrow> bool \<Rightarrow> real \<Rightarrow> real \<Rightarrow> nat \<Rightarrow> (string \<times> node) list \<Rightarrow> layout \<Rightarrow> layout" where
  "tableCells sp isHeader colWidth rowHeight i [] s = s"
| "tableCells sp isHeader colWidth rowHeight i (cell # cells) s =
     tableCells sp isHeader colWidth rowHeight (Suc i) cells
       (tableCell sp isHeader colWidth rowHeight i cell s)"

fun columnBorders :: "nat list \<Rightarrow> real \<Rightarrow> real \<Rightarrow> layout \<Rightarrow> layout" where
  "columnBorders [] colWidth rowHeight s = s"
| "columnBorders (i # rest) colWidth rowHeight s =
     columnBorders rest colWidth rowHeight
       (doc_line (MARGIN + real i * colWidth) (cursor_y s)
                 (MARGIN + real i * colWidth) (cursor_y s + rowHeight) s)"

definition tableRow :: "splitter \<Rightarrow> nat \<Rightarrow> real \<Rightarrow> real \<Rightarrow> node \<Rightarrow> layout \<Rightarrow> layout" where
  "tableRow sp cols colWidth rowHeight row s =
     (let s1 = checkPageBreak rowHeight s;
          cells = querySelectorAll [''th'', ''td''] row;
          isHeader = (querySelectorAll [''th''] row \<noteq> []);
          s2 = (if isHeader
                then doc_rect MARGIN (cursor_y s1) (contentWidth s1) rowHeight Fill
                       (setFillColor (240, 240, 240) s1)
                else s1);
          s3 = tableCells sp isHeader colWidth rowHeight 0 cells s2;
          s4 = setLineWidth 0.5 (setDrawColor (200, 200, 200) s3);
          s5 = doc_rect MARGIN (cursor_y s4) (contentWidth s4) rowHeight Stroke s4;
          s6 = columnBorders [1..<cols] colWidth rowHeight s5
      in s6\<lparr>cursor_y := cursor_y s6 + rowHeight\<rparr>)"

fun tableRows :: "splitter \<Rightarrow> nat \<Rightarrow> real \<Rightarrow> real \<Rightarrow> node list \<Rightarrow> layout \<Rightarrow> layout" where
  "tableRows sp cols colWidth rowHeight [] s = s"
| "tableRows sp cols colWidth rowHeight (row # rows) s =
     tableRows sp cols colWidth rowHeight rows (tableRow sp cols colWidth rowHeight row s)"

definition tableBlock :: "splitter \<Rightarrow> node \<Rightarrow> layout \<Rightarrow> layout" where
  "tableBlock sp n s =
     (let s1 = addSpace 10 s;
          rows = map snd (querySelectorAll [''tr''] n)
      in case rows of
           [] \<Rightarrow> s1
         | row0 # rest \<Rightarrow>
             (let len = length (querySelectorAll [''th'', ''td''] row0);
                  cols = (if len \<noteq> 0 then len else 1);
                  colWidth = contentWidth s1 / real cols;
                  rowHeight = getLineHeight FONT_SIZE_BODY + 12;
                  s2 = tableRows sp cols colWidth rowHeight rows s1
              in addSpace 10 s2))"

definition horizontalRule :: "layout \<Rightarrow> layout" where
  "horizontalRule s =
     (let s1 = addSpace 15 s;
          s2 = checkPageBreak 5 s1;
          s3 = setLineWidth 1 (setDrawColor (200, 200, 200) s2);
          s4 = doc_line MARGIN (cursor_y s3) (pageWidth s3 - MARGIN) (cursor_y s3) s3
      in addSpace 15 s4)"

text \<open>
  \<open>processNode\<close>. The second argument is the tag name of the node's parent element.
  \<open>processElements\<close> is the loop \<open>childNodes.forEach\<close> that calls \<open>processNode\<close> on
  every element child; \<open>processLists\<close> is the loop at the end of the \<open>li\<close> case, which
  calls it on the \<open>ul\<close> and \<open>ol\<close> children only. \<open>processNode\<close> is called on elements only.
\<close>

fun processNode :: "splitter \<Rightarrow> string \<Rightarrow> node \<Rightarrow> layout \<Rightarrow> layout"
  and processElements :: "splitter \<Rightarrow> string \<Rightarrow> node list \<Rightarrow> layout \<Rightarrow> layout"
  and processLists :: "splitter \<Rightarrow> string \<Rightarrow> node list \<Rightarrow> layout \<Rightarrow> layout"
where
  "processNode sp parent (Text t) s = s"
| "processNode sp parent (Comment t) s = s"
| "processNode sp parent (Element tag attrs cs) s =
     (if tag = ''h1'' then heading sp 20 FONT_SIZE_H1 10 parent (Element tag attrs cs) s
      else if tag = ''h2'' then heading sp 16 FONT_SIZE_H2 8 parent (Element tag attrs cs) s
      else if tag = ''h3'' then heading sp 12 FONT_SIZE_H3 6 parent (Element tag attrs cs) s
      else if tag = ''h4'' \<or> tag = ''h5'' \<or> tag = ''h6''
        then heading sp 10 FONT_SIZE_H4 4 parent (Element tag attrs cs) s
      else if tag = ''p'' then paragraphBlock sp parent (Element tag attrs cs) s
      else if tag = ''ul'' \<or> tag = ''ol''
        then exitList (processElements sp tag cs (enterList s))
      else if tag = ''li''
        then processLists sp tag cs (listItem sp parent (Element tag attrs cs) s)
      else if tag = ''blockquote'' then blockquote sp parent (Element tag attrs cs) s
      else if tag = ''pre'' then preBlock (Element tag attrs cs) s
      else if tag = ''table'' then tableBlock sp (Element tag attrs cs) s
      else if tag = ''hr'' then horizontalRule s
      else processElements sp tag cs s)"
| "processElements sp parent [] s = s"
| "processElements sp parent (c # cs) s =
     processElements sp parent cs (if isElement c then processNode sp parent c s else s)"
| "processLists sp parent [] s = s"
| "processLists sp parent (c # cs) s =
     processLists sp parent cs
       (if isElement c \<and> (tagName c = ''ul'' \<or> tagName c = ''ol'')
        then processNode sp parent c s else s)"

text \<open>
  \<open>renderToPdf\<close>. \<open>DOMParser\<close> is a collaborator: \<open>parse\<close> maps the HTML text to
  \<open>body.firstElementChild\<close> of the parsed document, if there is one. \<open>initialLayout\<close>
  is the state at \<open>let y = MARGIN; let listDepth = 0; const listCounters = []\<close>. The
  document that the source mutates is returned.
\<close>

definition initialLayout :: "jsPDF \<Rightarrow> layout" where
  "initialLayout d = jsPDF.extend d (layout.fields MARGIN 0 [])"

definition renderRoot :: "splitter \<Rightarrow> jsPDF \<Rightarrow> node \<Rightarrow> layout" where
  "renderRoot sp d rootEl =
     processElements sp (tagName rootEl) (childNodes rootEl) (initialLayout d)"

definition renderToPdf :: "(jstring \<Rightarrow> node option) \<Rightarrow> splitter \<Rightarrow> jsPDF \<Rightarrow> jstring \<Rightarrow> jsPDF" where
  "renderToPdf parse sp d html =
     (case parse (js ''<div>'' @ html @ js ''</div>'') of
        None \<Rightarrow> d
      | Some rootEl \<Rightarrow> jsPDF.truncate (renderRoot sp d rootEl))"

section \<open>The exporter\<close>

text \<open>
  \<open>downloadMarkdownAsPdf\<close>. The libraries it calls are collaborators: \<open>remark\<close> (the
  Markdown compiler), \<open>DOMPurify.sanitize\<close>, \<open>DOMParser\<close>, \<open>splitTextToSize\<close>, the
  fresh document of \<open>new jsPDF\<close>, the date and \<open>doc.save\<close>. Each one that can throw
  returns the thrown value on the left; the \<open>catch\<close> block logs and rethrows it.
\<close>

datatype 'e failure = EmptyMarkdownError jstring | Thrown 'e

definition defaultMessage :: jstring where
  "defaultMessage = js ''No content to download. Add some notes first!''"

record 'e collaborators =
  remark :: "jstring \<Rightarrow> 'e + jstring"
  sanitize :: "jstring \<Rightarrow> 'e + jstring"
  parseFromString :: "jstring \<Rightarrow> node option"
  splitText :: splitter
  newDoc :: jsPDF
  isoDate :: jstring
  save :: "jstring \<Rightarrow> jsPDF \<Rightarrow> 'e option"

definition markdownToHtml :: "'e collaborators \<Rightarrow> jstring \<Rightarrow> 'e + jstring" where
  "markdownToHtml env markdown = remark env (convertLatexToUnicode markdown)"

definition downloadMarkdownAsPdf ::
  "'e collaborators \<Rightarrow> jstring \<Rightarrow> jstring \<Rightarrow> 'e failure + jstring \<times> jsPDF" where
  "downloadMarkdownAsPdf env markdown filenamePrefix =
     (if trim markdown = [] then Inl (EmptyMarkdownError defaultMessage)
      else case markdownToHtml env markdown of
             Inl e \<Rightarrow> Inl (Thrown e)
           | Inr html \<Rightarrow>
               (case sanitize env html of
                  Inl e \<Rightarrow> Inl (Thrown e)
                | Inr clean \<Rightarrow>
                    (let d = renderToPdf (parseFromString env) (splitText env) (newDoc env) clean;
                         filename = filenamePrefix @ js ''-'' @ isoDate env @ js ''.pdf''
                     in case save env filename d of
                          Some e \<Rightarrow> Inl (Thrown e)
                        | None \<Rightarrow> Inr (filename, d))))"

section \<open>Concrete inputs\<close>

text \<open>
  The document of \<open>new jsPDF({unit: 'pt', format: 'letter', orientation: 'portrait'})\<close>:
  612 by 792 points, one page, nothing drawn.
\<close>

definition letterDoc :: jsPDF where
  "letterDoc =
     \<lparr>pageWidth = 612, pageHeight = 792, pageCount = 1,
      gfx = \<lparr>fontFamily = ''helvetica'', fontStyle = ''normal'', fontSize = 16,
             textColor = (0, 0, 0), fillColor = (0, 0, 0), drawColor = (0, 0, 0),
             lineWidth = 0.200025\<rparr>,
      drawn = []\<rparr>"

text \<open>A \<open>splitTextToSize\<close> for which every text fits on one line.\<close>

definition noWrap :: splitter where
  "noWrap family style sz str w = [str]"

text \<open>Collaborators that all throw: whatever the exporter returns with them, it returns
  without the help of any library.\<close>

definition throwing :: "unit collaborators" where
  "throwing =
     \<lparr>remark = (\<lambda>md. Inl ()), sanitize = (\<lambda>html. Inl ()), parseFromString = (\<lambda>html. None),
      splitText = noWrap, newDoc = letterDoc, isoDate = js ''2024-01-01'',
      save = (\<lambda>filename d. Some ())\<rparr>"

text \<open>
  The trees of the HTML that the Markdown compiler prints, inside the \<open>div\<close> that
  \<open>renderToPdf\<close> wraps around it: for the bullet list \<open>- a\n- b\n- c\<close>

  \<^verbatim>\<open><ul>\n<li>a</li>\n<li>b</li>\n<li>c</li>\n</ul>\n\<close>

  for the ordered list \<open>1. x\n2. y\<close> (the attributes of \<open>ol\<close> are left open: a list
  that starts at another number differs in a \<open>start\<close> attribute only)

  \<^verbatim>\<open><ol>\n<li>x</li>\n<li>y</li>\n</ol>\n\<close>

  for the ordered task list \<open>1. [ ] x\<close>

  \<^verbatim>\<open><ol class="contains-task-list">\n<li class="task-list-item"><input type="checkbox" disabled> x</li>\n</ol>\n\<close>

  and for the quotation \<open>> q\<close>

  \<^verbatim>\<open><blockquote>\n<p>q</p>\n</blockquote>\n\<close>
\<close>

definition bulletList :: node where
  "bulletList =
     Element ''div'' []
       [Element ''ul'' []
          [Text [10], Element ''li'' [] [Text (js ''a'')],
           Text [10], Element ''li'' [] [Text (js ''b'')],
           Text [10], Element ''li'' [] [Text (js ''c'')],
           Text [10]],
        Text [10]]"

definition orderedList :: "(string \<times> jstring) list \<Rightarrow> node" where
  "orderedList attrs =
     Element ''div'' []
       [Element ''ol'' attrs
          [Text [10], Element ''li'' [] [Text (js ''x'')],
           Text [10], Element ''li'' [] [Text (js ''y'')],
           Text [10]],
        Text [10]]"

definition taskList :: node where
  "taskList =
     Element ''div'' []
       [Element ''ol'' [(''class'', js ''contains-task-list'')]
          [Text [10],
           Element ''li'' [(''class'', js ''task-list-item'')]
             [Element ''input'' [(''type'', js ''checkbox''), (''disabled'', [])] [],
              Text (js '' x'')],
           Text [10]],
        Text [10]]"

definition quotation :: node where
  "quotation =
     Element ''div'' []
       [Element ''blockquote'' []
          [Text [10], Element ''p'' [] [Text (js ''q'')], Text [10]],
        Text [10]]"

text \<open>
  A table of three columns with a header row, a code block of eight lines, and a fresh
  letter document that differs from \<open>letterDoc\<close> in its graphics state only.
\<close>

definition threeColumns :: node where
  "threeColumns =
     Element ''table'' []
       [Element ''thead'' []
          [Element ''tr'' []
             [Element ''th'' [] [Text (js ''A'')], Element ''th'' [] [Text (js ''B'')],
              Element ''th'' [] [Text (js ''C'')]]],
        Element ''tbody'' []
          [Element ''tr'' []
             [Element ''td'' [] [Text (js ''1'')], Element ''td'' [] [Text (js ''2'')],
              Element ''td'' [] [Text (js ''3'')]]]]"

definition eightLines :: node where
  "eightLines =
     Element ''pre'' []
       [Element ''code'' []
          [Text (js ''1'' @ [10] @ js ''2'' @ [10] @ js ''3'' @ [10] @ js ''4'' @ [10] @
                 js ''5'' @ [10] @ js ''6'' @ [10] @ js ''7'' @ [10] @ js ''8'' @ [10])]]"

definition otherPen :: jsPDF where
  "otherPen =
     letterDoc\<lparr>gfx := \<lparr>fontFamily = ''times'', fontStyle = ''italic'', fontSize = 9,
                        textColor = (255, 0, 0), fillColor = (0, 255, 0),
                        drawColor = (0, 0, 255), lineWidth = 2\<rparr>\<rparr>"

section \<open>Notions used in the statements\<close>

text \<open>
  Where the page-break policy puts \<open>n\<close> lines of height \<open>lh\<close>, the first at cursor
  \<open>y0\<close> on page \<open>pg\<close>, on pages of height \<open>h\<close>: a line that would end below
  \<open>h - MARGIN\<close> goes to the top of a new page. The result is the page and the vertical
  coordinate of each line.
\<close>

fun placeLines :: "real \<Rightarrow> real \<Rightarrow> nat \<Rightarrow> real \<Rightarrow> nat \<Rightarrow> (nat \<times> real) list" where
  "placeLines h lh pg y0 0 = []"
| "placeLines h lh pg y0 (Suc n) =
     (if y0 + lh > h - MARGIN
      then (Suc pg, MARGIN) # placeLines h lh (Suc pg) (MARGIN + lh) n
      else (pg, y0) # placeLines h lh pg (y0 + lh) n)"

text \<open>The page and the cursor after these \<open>n\<close> lines.\<close>

fun afterLines :: "real \<Rightarrow> real \<Rightarrow> nat \<Rightarrow> real \<Rightarrow> nat \<Rightarrow> nat \<times> real" where
  "afterLines h lh pg y0 0 = (pg, y0)"
| "afterLines h lh pg y0 (Suc n) =
     (if y0 + lh > h - MARGIN
      then afterLines h lh (Suc pg) (MARGIN + lh) n
      else afterLines h lh pg (y0 + lh) n)"

text \<open>The entries that a call added to the document, and their shapes.\<close>

definition added :: "'a jsPDF_scheme \<Rightarrow> 'b jsPDF_scheme \<Rightarrow> entry list" where
  "added d0 d1 = drop (length (drawn d0)) (drawn d1)"

definition shapes :: "'a jsPDF_scheme \<Rightarrow> drawop list" where
  "shapes d = map shape (drawn d)"

text \<open>
  A vertical coordinate within \<open>[MARGIN, h - MARGIN]\<close>; the vertical coordinates that a
  drawing call is given; an entry all of whose vertical coordinates are within the band.
\<close>

definition inBand :: "real \<Rightarrow> real \<Rightarrow> bool" where
  "inBand h v \<longleftrightarrow> MARGIN \<le> v \<and> v \<le> h - MARGIN"

fun verticals :: "drawop \<Rightarrow> real list" where
  "verticals (DrawText str x0 v) = [v]"
| "verticals (DrawLine x1 v1 x2 v2) = [v1, v2]"
| "verticals (DrawRect x0 v w ht style) = [v]"
| "verticals (DrawRoundedRect x0 v w ht rx ry style) = [v]"

definition withinPage :: "real \<Rightarrow> entry \<Rightarrow> bool" where
  "withinPage h e = list_all (inBand h) (verticals (shape e))"

text \<open>
  The same, leaving out the two decorations that the source places relative to the cursor
  without a page-break check: the rule beside a quotation, the only line stroked with
  width 3, and the rounded background of a code block. For a rectangle the lower edge is
  within the band as well.
\<close>

fun pageChecked :: "real \<Rightarrow> entry \<Rightarrow> bool" where
  "pageChecked h e =
     (case shape e of
        DrawText str x0 v \<Rightarrow> inBand h v
      | DrawLine x1 v1 x2 v2 \<Rightarrow> lineWidth (pen e) = 3 \<or> (inBand h v1 \<and> inBand h v2)
      | DrawRect x0 v w ht style \<Rightarrow> inBand h v \<and> inBand h (v + ht)
      | DrawRoundedRect x0 v w ht rx ry style \<Rightarrow> True)"

definition layoutOk :: "real \<Rightarrow> layout \<Rightarrow> bool" where
  "layoutOk h s \<longleftrightarrow>
     pageHeight s = h \<and> MARGIN \<le> cursor_y s \<and> list_all (pageChecked h) (drawn s)"

text \<open>
  What two layouts have in common when they differ in the graphics state only: the page
  size and count, the page and the shape of every entry, the cursor and the list state.
\<close>

definition placed :: "'a jsPDF_scheme \<Rightarrow> (nat \<times> drawop) list" where
  "placed d = map (\<lambda>e. (onPage e, shape e)) (drawn d)"

definition sameGeometry :: "layout \<Rightarrow> layout \<Rightarrow> bool" where
  "sameGeometry s t \<longleftrightarrow>
     pageWidth s = pageWidth t \<and> pageHeight s = pageHeight t \<and> pageCount s = pageCount t \<and>
     placed s = placed t \<and> cursor_y s = cursor_y t \<and> listDepth s = listDepth t \<and>
     listCounters s = listCounters t"

fun isText :: "drawop \<Rightarrow> bool" where
  "isText (DrawText str x0 v) = True"
| "isText (DrawLine x1 v1 x2 v2) = False"
| "isText (DrawRect x0 v w ht style) = False"
| "isText (DrawRoundedRect x0 v w ht rx ry style) = False"

text \<open>The two facts about the list state that the walk is to keep.\<close>

definition listInvariant :: "layout \<Rightarrow> bool" where
  "listInvariant s \<longleftrightarrow> 0 \<le> listDepth s \<and> int (length (listCounters s)) = listDepth s"

section \<open>Properties of the normalizer\<close>

lemmas normalizer_defs =
  convertLatexToUnicode_def convertLatexWith_def normalizeSpan_def applyTable_def
  LATEX_TO_UNICODE_def macro_def js_def trim_def isWhiteSpace_def stripBraces_def isLetter_def

text \<open>
  Claim C3. The normalizer turns \<open>$\alpha \to \beta$\<close> (the macros written with one
  backslash each, as the JavaScript literal \<open>"$\\alpha \\to \\beta$"\<close> denotes) into
  alpha, space, rightwards arrow, space, beta. All three macros are keys of the table. The
  result is the same when the table is walked in the opposite order, so the order of the
  table does not matter for this input.
\<close>

theorem alpha_to_beta:
  "convertLatexToUnicode ([36] @ macro ''alpha'' @ [32] @ macro ''to'' @ [32] @ macro ''beta'' @ [36])
     = [945, 32, 8594, 32, 946]
   \<and> convertLatexWith (rev LATEX_TO_UNICODE)
       ([36] @ macro ''alpha'' @ [32] @ macro ''to'' @ [32] @ macro ''beta'' @ [36])
     = [945, 32, 8594, 32, 946]
   \<and> map_of LATEX_TO_UNICODE (macro ''alpha'') = Some [945]
   \<and> map_of LATEX_TO_UNICODE (macro ''to'') = Some [8594]
   \<and> map_of LATEX_TO_UNICODE (macro ''beta'') = Some [946]"
  by (simp add: normalizer_defs)

lemma replaceSpans_no_dollar:
  "36 \<notin> set pre \<Longrightarrow> replaceSpans f (pre @ s) = pre @ replaceSpans f s"
  by (induction pre) auto

lemma replaceSpans_span:
  assumes "latex \<noteq> []" and "36 \<notin> set latex"
  shows "replaceSpans f (36 # latex @ 36 # post) = f latex @ replaceSpans f post"
proof -
  have tw: "takeWhile (\<lambda>d. d \<noteq> 36) (latex @ 36 # post) = latex"
    using assms(2) by (induction latex) auto
  have dw: "dropWhile (\<lambda>d. d \<noteq> 36) (latex @ 36 # post) = 36 # post"
    using assms(2) by (induction latex) auto
  show ?thesis
    using assms(1) by (simp add: tw dw)
qed

lemma trim_Nil: "trim [] = []"
  by (simp add: trim_def)

lemma dropWhile_all_iff:
  "(\<forall>x\<in>set (dropWhile P s). P x) \<longleftrightarrow> (\<forall>x\<in>set s. P x)"
  by (induction s) auto

lemma trim_empty_iff: "trim s = [] \<longleftrightarrow> (\<forall>c\<in>set s. isWhiteSpace c)"
  by (simp add: trim_def dropWhile_eq_Nil_conv dropWhile_all_iff)

text \<open>
  Claim C8. Take a span \<open>$latex$\<close>: a dollar sign, a non-empty text without dollar
  signs, a dollar sign, after a text \<open>pre\<close> without dollar signs. If nothing is left of
  the trimmed \<open>latex\<close> once the table has been applied and the remaining backslash words
  and braces are stripped, the normalizer puts the captured text \<open>latex\<close> itself in the
  place of the span, unchanged, and goes on with the rest.
\<close>

theorem empty_result_falls_back_to_captured_text:
  assumes "36 \<notin> set pre" and "latex \<noteq> []" and "36 \<notin> set latex"
    and "stripBraces (stripMacros (applyTable LATEX_TO_UNICODE (trim latex))) = []"
  shows "convertLatexToUnicode (pre @ 36 # latex @ 36 # post) =
           pre @ latex @ convertLatexToUnicode post"
proof -
  let ?f = "normalizeSpan LATEX_TO_UNICODE"
  have fallback: "?f latex = latex"
    using assms(4) by (simp add: normalizeSpan_def trim_Nil)
  have "replaceSpans ?f (pre @ 36 # latex @ 36 # post) =
          pre @ replaceSpans ?f (36 # latex @ 36 # post)"
    using assms(1) by (rule replaceSpans_no_dollar)
  also have "\<dots> = pre @ ?f latex @ replaceSpans ?f post"
    by (simp only: replaceSpans_span [OF assms(2,3)])
  finally show ?thesis
    by (simp only: convertLatexToUnicode_def convertLatexWith_def fallback)
qed

theorem empty_result_falls_back_witness:
  "stripBraces (stripMacros (applyTable LATEX_TO_UNICODE (trim (macro ''foo'')))) = []
   \<and> convertLatexToUnicode (js ''see '' @ 36 # macro ''foo'' @ 36 # js '' here'') =
       js ''see '' @ macro ''foo'' @ js '' here''"
proof -
  have h: "stripBraces (stripMacros (applyTable LATEX_TO_UNICODE (trim (macro ''foo'')))) = []"
    by (simp add: normalizer_defs)
  have rest: "convertLatexToUnicode (js '' here'') = js '' here''"
    by (simp add: normalizer_defs)
  show ?thesis
    using h rest
      empty_result_falls_back_to_captured_text
        [of "js ''see ''" "macro ''foo''" "js '' here''", OF _ _ _ h]
    by (simp add: macro_def js_def)
qed

section \<open>Properties of the exporter\<close>

text \<open>
  Claim C1. When every character of the Markdown text is white space (the empty text
  included), so that its trim is empty, \<open>downloadMarkdownAsPdf\<close> fails with an
  \<open>EmptyMarkdownError\<close> that carries the default message. This holds for all
  collaborators, also for ones that would throw: the check comes before the compiler, the
  sanitizer and the layout are called. When some character is not white space, the result
  is no \<open>EmptyMarkdownError\<close>, whatever its message.
\<close>

theorem blank_markdown_is_rejected_first:
  "((\<forall>c\<in>set markdown. isWhiteSpace c) \<longrightarrow>
      downloadMarkdownAsPdf env markdown filenamePrefix = Inl (EmptyMarkdownError defaultMessage))
   \<and> ((\<exists>c\<in>set markdown. \<not> isWhiteSpace c) \<longrightarrow>
      (\<forall>msg. downloadMarkdownAsPdf env markdown filenamePrefix \<noteq> Inl (EmptyMarkdownError msg)))"
proof (cases "trim markdown = []")
  case True
  then show ?thesis
    by (auto simp: downloadMarkdownAsPdf_def trim_empty_iff)
next
  case False
  then have "\<exists>c\<in>set markdown. \<not> isWhiteSpace c"
    by (simp add: trim_empty_iff)
  with False show ?thesis
    by (auto simp: downloadMarkdownAsPdf_def Let_def split: sum.splits option.splits)
qed

theorem blank_markdown_is_rejected_first_witness:
  "trim [32, 10, 9] = []
   \<and> downloadMarkdownAsPdf throwing [32, 10, 9] (js ''notes'') = Inl (EmptyMarkdownError defaultMessage)
   \<and> trim (js ''x'') \<noteq> []
   \<and> downloadMarkdownAsPdf throwing (js ''x'') (js ''notes'') \<noteq> Inl (EmptyMarkdownError defaultMessage)"
proof -
  have blank: "\<forall>c\<in>set [32, 10, 9]. isWhiteSpace c"
    by (simp add: isWhiteSpace_def)
  have inked: "\<exists>c\<in>set (js ''x''). \<not> isWhiteSpace c"
    by (simp add: js_def isWhiteSpace_def)
  show ?thesis
    using blank inked
      blank_markdown_is_rejected_first [of "[32, 10, 9]" throwing "js ''notes''"]
      blank_markdown_is_rejected_first [of "js ''x''" throwing "js ''notes''"]
    by (simp only: trim_empty_iff) blast
qed

section \<open>Properties of the layout engine\<close>

lemmas surface_defs =
  addPage_def setFontSize_def setFont_def setTextColor_def setFillColor_def setDrawColor_def
  setLineWidth_def emit_def doc_text_def doc_line_def doc_rect_def doc_roundedRect_def

lemmas step_defs = surface_defs checkPageBreak_def addSpace_def

subsection \<open>The list state is touched by the list cases only\<close>

lemma renderLines_lists [simp]:
  "listDepth (renderLines ls x0 lh s) = listDepth s"
  "listCounters (renderLines ls x0 lh s) = listCounters s"
  by (induction ls arbitrary: s) (simp_all add: step_defs Let_def)

lemma renderText_lists [simp]:
  "listDepth (renderText sp str sz opts s) = listDepth s"
  "listCounters (renderText sp str sz opts s) = listCounters s"
  by (simp_all add: renderText_def step_defs Let_def)

lemma heading_lists [simp]:
  "listDepth (heading sp b sz a parent n s) = listDepth s"
  "listCounters (heading sp b sz a parent n s) = listCounters s"
  by (simp_all add: heading_def addSpace_def Let_def)

lemma paragraphBlock_lists [simp]:
  "listDepth (paragraphBlock sp parent n s) = listDepth s"
  "listCounters (paragraphBlock sp parent n s) = listCounters s"
  by (simp_all add: paragraphBlock_def addSpace_def Let_def)

lemma blockquote_lists [simp]:
  "listDepth (blockquote sp parent n s) = listDepth s"
  "listCounters (blockquote sp parent n s) = listCounters s"
  by (simp_all add: blockquote_def step_defs Let_def)

lemma codeLines_lists [simp]:
  "listDepth (codeLines ls lh s) = listDepth s"
  "listCounters (codeLines ls lh s) = listCounters s"
  by (induction ls arbitrary: s) (simp_all add: step_defs Let_def)

lemma preBlock_lists [simp]:
  "listDepth (preBlock n s) = listDepth s"
  "listCounters (preBlock n s) = listCounters s"
  by (simp_all add: preBlock_def step_defs Let_def)

lemma tableCells_lists [simp]:
  "listDepth (tableCells sp isH cw rh i cells s) = listDepth s"
  "listCounters (tableCells sp isH cw rh i cells s) = listCounters s"
  by (induction cells arbitrary: s i) (simp_all add: tableCell_def step_defs Let_def)

lemma columnBorders_lists [simp]:
  "listDepth (columnBorders ks cw rh s) = listDepth s"
  "listCounters (columnBorders ks cw rh s) = listCounters s"
  by (induction ks arbitrary: s) (simp_all add: step_defs)

lemma tableRow_lists [simp]:
  "listDepth (tableRow sp cols cw rh row s) = listDepth s"
  "listCounters (tableRow sp cols cw rh row s) = listCounters s"
  by (simp_all add: tableRow_def step_defs Let_def)

lemma tableRows_lists [simp]:
  "listDepth (tableRows sp cols cw rh rows s) = listDepth s"
  "listCounters (tableRows sp cols cw rh rows s) = listCounters s"
  by (induction rows arbitrary: s) simp_all

lemma tableBlock_lists [simp]:
  "listDepth (tableBlock sp n s) = listDepth s"
  "listCounters (tableBlock sp n s) = listCounters s"
  by (simp_all add: tableBlock_def addSpace_def Let_def split: list.splits)

lemma horizontalRule_lists [simp]:
  "listDepth (horizontalRule s) = listDepth s"
  "listCounters (horizontalRule s) = listCounters s"
  by (simp_all add: horizontalRule_def step_defs Let_def)

lemma listItem_lists:
  "listDepth (listItem sp parent n s) = listDepth s"
  "listCounters (listItem sp parent n s) =
     (if listCounters s = [] then [] else butlast (listCounters s) @ [Suc (last (listCounters s))])"
  by (simp_all add: listItem_def Let_def)

lemma enterList_lists:
  "listDepth (enterList s) = listDepth s + 1"
  "listCounters (enterList s) = listCounters s @ [0]"
  by (simp_all add: enterList_def)

lemma exitList_lists:
  "listDepth (exitList s) = listDepth s - 1"
  "listCounters (exitList s) = butlast (listCounters s)"
  by (simp_all add: exitList_def addSpace_def Let_def)

declare processNode.simps(3) [simp del]

lemma walk_keeps_list_frame:
  "listDepth (processNode sp parent n s) = listDepth s \<and>
   length (listCounters (processNode sp parent n s)) = length (listCounters s) \<and>
   butlast (listCounters (processNode sp parent n s)) = butlast (listCounters s)"
  "listDepth (processElements sp parent ns s) = listDepth s \<and>
   length (listCounters (processElements sp parent ns s)) = length (listCounters s) \<and>
   butlast (listCounters (processElements sp parent ns s)) = butlast (listCounters s)"
  "listDepth (processLists sp parent ns s) = listDepth s \<and>
   length (listCounters (processLists sp parent ns s)) = length (listCounters s) \<and>
   butlast (listCounters (processLists sp parent ns s)) = butlast (listCounters s)"
proof (induction sp parent n s and sp parent ns s and sp parent ns s
       rule: processNode_processElements_processLists.induct)
  case (3 sp parent tag attrs cs s)
  show ?case
  proof (cases "tag = ''ul'' \<or> tag = ''ol''")
    case True
    then have run: "processNode sp parent (Element tag attrs cs) s =
        exitList (processElements sp tag cs (enterList s))"
      by (auto simp: processNode.simps(3))
    from True have ih: "listDepth (processElements sp tag cs (enterList s)) = listDepth (enterList s) \<and>
       length (listCounters (processElements sp tag cs (enterList s))) = length (listCounters (enterList s)) \<and>
       butlast (listCounters (processElements sp tag cs (enterList s))) = butlast (listCounters (enterList s))"
      by (intro "3.IH"(1)) auto
    show ?thesis
      using ih by (simp add: run exitList_lists enterList_lists)
  next
    case notList: False
    show ?thesis
    proof (cases "tag = ''li''")
      case True
      then have run: "processNode sp parent (Element tag attrs cs) s =
          processLists sp tag cs (listItem sp parent (Element tag attrs cs) s)"
        by (simp add: processNode.simps(3))
      from True notList have ih: "listDepth (processLists sp tag cs (listItem sp parent (Element tag attrs cs) s)) = listDepth (listItem sp parent (Element tag attrs cs) s) \<and>
        length (listCounters (processLists sp tag cs (listItem sp parent (Element tag attrs cs) s))) = length (listCounters (listItem sp parent (Element tag attrs cs) s)) \<and>
        butlast (listCounters (processLists sp tag cs (listItem sp parent (Element tag attrs cs) s))) = butlast (listCounters (listItem sp parent (Element tag attrs cs) s))"
        by (intro "3.IH"(2)) auto
      show ?thesis
        using ih by (simp add: run listItem_lists)
    next
      case False
      with notList "3.IH"(3) show ?thesis
        by (simp add: processNode.simps(3))
    qed
  qed
qed simp_all

lemma added_append [simp]: "drawn d1 = drawn d0 @ es \<Longrightarrow> added d0 d1 = es"
  by (simp add: added_def)

lemma list_restores_counters:
  assumes "tag = ''ul'' \<or> tag = ''ol''"
  shows "listCounters (processNode sp parent (Element tag attrs cs) s) = listCounters s"
proof -
  from assms have run: "processNode sp parent (Element tag attrs cs) s =
      exitList (processElements sp tag cs (enterList s))"
    by (auto simp: processNode.simps(3))
  have "butlast (listCounters (processElements sp tag cs (enterList s))) =
        butlast (listCounters (enterList s))"
    using walk_keeps_list_frame(2) by blast
  then show ?thesis
    by (simp add: run exitList_lists enterList_lists)
qed

lemma processLists_keeps_counters:
  "listCounters (processLists sp parent ns s) = listCounters s"
proof (induction ns arbitrary: s)
  case Nil
  show ?case by simp
next
  case (Cons c ns)
  show ?case
  proof (cases c)
    case (Element tag attrs cs)
    then show ?thesis
      using Cons.IH list_restores_counters [of tag sp parent attrs cs s] by auto
  qed (simp_all add: Cons.IH)
qed

lemma item_bumps_counter:
  "listCounters s = cs @ [k] \<Longrightarrow>
   listCounters (processNode sp parent (Element ''li'' attrs kids) s) = cs @ [Suc k]"
  by (simp add: processNode.simps(3) processLists_keeps_counters listItem_lists)

lemma processElements_append:
  "processElements sp parent (xs @ ys) s =
     processElements sp parent ys (processElements sp parent xs s)"
  by (induction xs arbitrary: s) simp_all

lemma counter_counts_items:
  assumes "\<forall>c\<in>set ns. isElement c \<longrightarrow> tagName c = ''li''"
    and "listCounters s = cs @ [k]"
  shows "listCounters (processElements sp parent ns s) = cs @ [k + length (filter isElement ns)]"
  using assms
proof (induction ns arbitrary: s k)
  case Nil
  then show ?case by simp
next
  case (Cons c ns)
  show ?case
  proof (cases c)
    case (Element tag attrs kids)
    with Cons.prems(1) have tag: "tag = ''li''" by simp
    have "listCounters (processNode sp parent c s) = cs @ [Suc k]"
      using item_bumps_counter [OF Cons.prems(2)] Element tag by simp
    then have "listCounters (processElements sp parent ns (processNode sp parent c s)) =
        cs @ [Suc k + length (filter isElement ns)]"
      using Cons.prems(1) by (intro Cons.IH) auto
    then show ?thesis
      using Element by simp
  next
    case (Text t)
    then show ?thesis
      using Cons.IH [of s k] Cons.prems by simp
  next
    case (Comment t)
    then show ?thesis
      using Cons.IH [of s k] Cons.prems by simp
  qed
qed

subsection \<open>What the line loops draw\<close>

lemma renderLines_frame [simp]:
  "gfx (renderLines ls x0 lh s) = gfx s"
  "pageWidth (renderLines ls x0 lh s) = pageWidth s"
  "pageHeight (renderLines ls x0 lh s) = pageHeight s"
  by (induction ls arbitrary: s) (simp_all add: step_defs Let_def)

lemma renderLines_drawn:
  "drawn (renderLines ls x0 lh s) =
     drawn s @ map (\<lambda>(l, pg, y1). \<lparr>onPage = pg, pen = gfx s, shape = DrawText l x0 y1\<rparr>)
                 (zip ls (placeLines (pageHeight s) lh (pageCount s) (cursor_y s) (length ls)))"
  by (induction ls arbitrary: s) (simp_all add: step_defs Let_def)

lemma length_placeLines [simp]: "length (placeLines h lh pg y0 n) = n"
  by (induction n arbitrary: pg y0) simp_all

lemma itemPrefix_not_empty [simp]: "itemPrefix parent n counter \<noteq> []"
  by (simp add: itemPrefix_def js_def split: option.splits)

lemma renderText_drawn:
  fixes sp :: splitter and sz :: real and opts :: options and s :: layout and str :: jstring
  defines "lh \<equiv> getLineHeight sz"
    and "style \<equiv> (if bold opts then (if italic opts then ''bolditalic'' else ''bold'')
                   else (if italic opts then ''italic'' else ''normal''))"
    and "s0 \<equiv> (if prefix opts \<noteq> [] then checkPageBreak (getLineHeight sz) s else s)"
    and "ti \<equiv> (if prefix opts \<noteq> [] then 15 else 0)"
  defines "g \<equiv> (gfx s)\<lparr>fontSize := sz, fontFamily := ''helvetica'', fontStyle := style,
                        textColor := color opts\<rparr>"
    and "lines \<equiv> sp ''helvetica'' style sz str (contentWidth s - indent opts - ti)"
  shows "drawn (renderText sp str sz opts s) =
     drawn s
     @ (if prefix opts \<noteq> []
        then [\<lparr>onPage = pageCount s0, pen = g,
               shape = DrawText (prefix opts) (MARGIN + indent opts) (cursor_y s0)\<rparr>]
        else [])
     @ map (\<lambda>(l, pg, y1). \<lparr>onPage = pg, pen = g, shape = DrawText l (MARGIN + indent opts + ti) y1\<rparr>)
         (zip lines (placeLines (pageHeight s) lh (pageCount s0) (cursor_y s0) (length lines)))"
  unfolding lh_def style_def s0_def ti_def g_def lines_def
  by (simp add: renderText_def Let_def renderLines_drawn step_defs splitTextToSize_def
      contentWidth_def)

lemma listItem_shapes:
  assumes "trim (directText n) \<noteq> []"
  shows "\<exists>y0 (places :: (nat \<times> real) list).
     map shape (added s (listItem sp parent n s)) =
       DrawText (itemPrefix parent n
                   (if listCounters s = [] then None else Some (Suc (last (listCounters s)))))
                (MARGIN + (real_of_int (listDepth s) - 1) * 20) y0
       # map (\<lambda>(l, pg, y1). DrawText l (MARGIN + (real_of_int (listDepth s) - 1) * 20 + 15) y1)
           (zip (sp ''helvetica'' ''normal'' FONT_SIZE_BODY (trim (directText n))
                   (contentWidth s - (real_of_int (listDepth s) - 1) * 20 - 15))
                places)
     \<and> length places =
         length (sp ''helvetica'' ''normal'' FONT_SIZE_BODY (trim (directText n))
                   (contentWidth s - (real_of_int (listDepth s) - 1) * 20 - 15))"
proof -
  let ?s1 = "(if listCounters s = [] then s
              else s\<lparr>listCounters := butlast (listCounters s) @ [Suc (last (listCounters s))]\<rparr>)"
  let ?pfx = "itemPrefix parent n
                (if listCounters s = [] then None else Some (Suc (last (listCounters s))))"
  let ?opts = "defaults\<lparr>indent := (real_of_int (listDepth s) - 1) * 20, prefix := ?pfx\<rparr>"
  have run: "listItem sp parent n s = renderText sp (trim (directText n)) FONT_SIZE_BODY ?opts ?s1"
    using assms by (simp add: listItem_def Let_def)
  have same: "drawn ?s1 = drawn s" "contentWidth ?s1 = contentWidth s" "pageHeight ?s1 = pageHeight s"
    by (simp_all add: contentWidth_def)
  have len: "\<And>h lh pg y1 (ls :: jstring list). length (placeLines h lh pg y1 (length ls)) = length ls"
    by simp
  show ?thesis
  proof (cases "listCounters s = []")
    case True
    show ?thesis
      unfolding run
      apply (simp add: True added_def renderText_drawn same defaults_def o_def split_def contentWidth_def)
      apply (rule exI, rule conjI, rule refl)
      apply simp
      done
  next
    case False
    show ?thesis
      unfolding run
      apply (simp add: False added_def renderText_drawn same defaults_def o_def split_def contentWidth_def)
      apply (rule exI, rule conjI, rule refl)
      apply simp
      done
  qed
qed

subsection \<open>Lists\<close>

lemmas eval_defs = shapes_def added_def renderRoot_def initialLayout_def jsPDF.extend_def
  layout.fields_def letterDoc_def noWrap_def processNode.simps(3) listItem_def itemPrefix_def
  directText_def querySelector_checkbox_def getAttribute_def hasAttribute_def showCounter_def
  renderText_def splitTextToSize_def step_defs enterList_def exitList_def Let_def
  defaults_def MARGIN_def FONT_SIZE_BODY_def getLineHeight_def contentWidth_def
  trim_def isWhiteSpace_def js_def

lemma listInvariant_walk:
  "listInvariant s \<Longrightarrow> listInvariant (processNode sp parent n s)"
  using walk_keeps_list_frame(1) [of sp parent n s] by (simp add: listInvariant_def)

text \<open>
  Claim C10, as amended. After \<open>processNode\<close> returns on any node, \<open>listDepth\<close> and the
  length of \<open>listCounters\<close> are what they were on entry, and so are all counters below the
  top one. On a \<open>ul\<close> or \<open>ol\<close> node the whole stack is what it was on entry: one counter
  is pushed and the depth incremented, then popped and decremented. On an \<open>li\<close> node the
  top counter of a non-empty stack is one more than on entry: this is the numbering of the
  items. \<open>listDepth \<ge> 0\<close> and \<open>length listCounters = listDepth\<close> hold in the initial
  state, are kept by every call of \<open>processNode\<close>, by entering a list and by the counter
  increment of an item, and hold when the walk is over.
\<close>

theorem list_state_is_balanced:
  "listDepth (processNode sp parent n s) = listDepth s
   \<and> length (listCounters (processNode sp parent n s)) = length (listCounters s)
   \<and> butlast (listCounters (processNode sp parent n s)) = butlast (listCounters s)
   \<and> (tagName n = ''ul'' \<or> tagName n = ''ol'' \<longrightarrow>
        listCounters (processNode sp parent n s) = listCounters s)
   \<and> (tagName n = ''li'' \<and> listCounters s \<noteq> [] \<longrightarrow>
        listCounters (processNode sp parent n s) =
          butlast (listCounters s) @ [Suc (last (listCounters s))])
   \<and> (listInvariant s \<longrightarrow>
        listInvariant (processNode sp parent n s) \<and> listInvariant (enterList s)
        \<and> listInvariant (listItem sp parent n s))
   \<and> listInvariant (initialLayout d)
   \<and> listInvariant (renderRoot sp d rootEl)"
proof -
  have restore: "tagName n = ''ul'' \<or> tagName n = ''ol'' \<Longrightarrow>
      listCounters (processNode sp parent n s) = listCounters s"
    by (cases n) (auto simp: list_restores_counters)
  have bump: "tagName n = ''li'' \<and> listCounters s \<noteq> [] \<Longrightarrow>
      listCounters (processNode sp parent n s) =
        butlast (listCounters s) @ [Suc (last (listCounters s))]"
    by (cases n)
       (auto simp: processNode.simps(3) processLists_keeps_counters listItem_lists)
  have start: "listInvariant (initialLayout d)"
    by (simp add: listInvariant_def initialLayout_def jsPDF.extend_def layout.fields_def)
  have finish: "listInvariant (renderRoot sp d rootEl)"
    using start walk_keeps_list_frame(2) [of sp "tagName rootEl" "childNodes rootEl" "initialLayout d"]
    by (simp add: listInvariant_def renderRoot_def)
  have steps: "listInvariant s \<Longrightarrow>
      listInvariant (enterList s) \<and> listInvariant (listItem sp parent n s)"
    by (auto simp: listInvariant_def enterList_lists listItem_lists)
  show ?thesis
    using walk_keeps_list_frame(1) [of sp parent n s] restore bump start finish steps
      listInvariant_walk [of s sp parent n]
    by blast
qed

text \<open>The same at a list nested in an item and at an item, from the state in which the
  children of a top-level list are walked.\<close>

theorem list_state_is_balanced_witness:
  "listInvariant (enterList (initialLayout letterDoc))
   \<and> listCounters (enterList (initialLayout letterDoc)) = [0]
   \<and> listCounters (processNode noWrap ''li''
         (Element ''ul'' [] [Element ''li'' [] [Text (js ''a'')]])
         (enterList (initialLayout letterDoc))) = [0]
   \<and> listInvariant (processNode noWrap ''li''
         (Element ''ul'' [] [Element ''li'' [] [Text (js ''a'')]])
         (enterList (initialLayout letterDoc)))
   \<and> listCounters (processNode noWrap ''ul'' (Element ''li'' [] [Text (js ''a'')])
         (enterList (initialLayout letterDoc))) = [1]"
proof -
  have inv: "listInvariant (enterList (initialLayout letterDoc))"
    by (simp add: listInvariant_def enterList_def initialLayout_def jsPDF.extend_def
        layout.fields_def)
  have top: "listCounters (enterList (initialLayout letterDoc)) = [0]"
    by (simp add: enterList_def initialLayout_def jsPDF.extend_def layout.fields_def)
  show ?thesis
    using inv top
      list_state_is_balanced [of noWrap "''li''"
        "Element ''ul'' [] [Element ''li'' [] [Text (js ''a'')]]"
        "enterList (initialLayout letterDoc)"]
      list_state_is_balanced [of noWrap "''ul''" "Element ''li'' [] [Text (js ''a'')]"
        "enterList (initialLayout letterDoc)"]
    by simp
qed

text \<open>
  Claim C10 as stated fails at an item: in the state in which the children of a top-level
  list are walked, the stack is \<open>[0]\<close> before \<open>processNode\<close> runs on the first \<open>li\<close>
  and \<open>[1]\<close> after.
\<close>

theorem item_changes_the_counter_stack:
  "listCounters (enterList (initialLayout letterDoc)) = [0]
   \<and> listCounters (processNode noWrap ''ul'' (Element ''li'' [] [Text (js ''a'')])
         (enterList (initialLayout letterDoc))) = [1]"
  by (simp add: processNode.simps(3) processLists_keeps_counters listItem_lists enterList_lists
      initialLayout_def jsPDF.extend_def layout.fields_def)

text \<open>
  Claim C7. With a \<open>splitTextToSize\<close> that keeps each of \<open>a\<close>, \<open>b\<close>, \<open>c\<close> on one
  line, the bullet list \<open>- a\n- b\n- c\<close> on a letter page is drawn as three lines, each a
  bullet (code unit 8226) at the left margin and its text 15 points to the right of it.
  In general an item with text is drawn with its prefix at \<open>MARGIN + (listDepth - 1) * 20\<close>
  and its wrapped lines 15 points to the right of that, where \<open>listDepth\<close> is the depth at
  which the item is processed; and whatever children of a list have been walked so far, the
  next one is processed at the depth of the list plus one. So each level of nesting adds
  exactly 20 points.
\<close>

theorem bullets_and_indentation:
  "(sp ''helvetica'' ''normal'' 11 (js ''a'') 497 = [js ''a''] \<and>
    sp ''helvetica'' ''normal'' 11 (js ''b'') 497 = [js ''b''] \<and>
    sp ''helvetica'' ''normal'' 11 (js ''c'') 497 = [js ''c''] \<longrightarrow>
      shapes (renderRoot sp letterDoc bulletList) =
        [DrawText [8226] 50 50, DrawText (js ''a'') 65 50,
         DrawText [8226] 50 65.4, DrawText (js ''b'') 65 65.4,
         DrawText [8226] 50 80.8, DrawText (js ''c'') 65 80.8])
   \<and> (trim (directText n) \<noteq> [] \<longrightarrow>
        (\<exists>y0 (places :: (nat \<times> real) list).
           map shape (added s (listItem sp parent n s)) =
             DrawText (itemPrefix parent n
                         (if listCounters s = [] then None
                          else Some (Suc (last (listCounters s)))))
                      (MARGIN + (real_of_int (listDepth s) - 1) * 20) y0
             # map (\<lambda>(l, pg, y1).
                      DrawText l (MARGIN + (real_of_int (listDepth s) - 1) * 20 + 15) y1)
                 (zip (sp ''helvetica'' ''normal'' FONT_SIZE_BODY (trim (directText n))
                         (contentWidth s - (real_of_int (listDepth s) - 1) * 20 - 15))
                      places)
           \<and> length places =
               length (sp ''helvetica'' ''normal'' FONT_SIZE_BODY (trim (directText n))
                         (contentWidth s - (real_of_int (listDepth s) - 1) * 20 - 15))))
   \<and> listDepth (processElements sp tag earlier (enterList s)) = listDepth s + 1"
proof -
  have example:
    "sp ''helvetica'' ''normal'' 11 (js ''a'') 497 = [js ''a''] \<and>
     sp ''helvetica'' ''normal'' 11 (js ''b'') 497 = [js ''b''] \<and>
     sp ''helvetica'' ''normal'' 11 (js ''c'') 497 = [js ''c''] \<Longrightarrow>
       shapes (renderRoot sp letterDoc bulletList) =
        [DrawText [8226] 50 50, DrawText (js ''a'') 65 50,
         DrawText [8226] 50 65.4, DrawText (js ''b'') 65 65.4,
         DrawText [8226] 50 80.8, DrawText (js ''c'') 65 80.8]"
    by (simp add: eval_defs bulletList_def)
  have depth: "listDepth (processElements sp tag earlier (enterList s)) = listDepth s + 1"
    using walk_keeps_list_frame(2) [of sp tag earlier "enterList s"]
    by (simp add: enterList_lists)
  show ?thesis
    using example listItem_shapes [of n s sp parent] depth by blast
qed

text \<open>The bullet list with a splitter that never wraps, and an item at depth two.\<close>

theorem bullets_and_indentation_witness:
  "shapes (renderRoot noWrap letterDoc bulletList) =
        [DrawText [8226] 50 50, DrawText (js ''a'') 65 50,
         DrawText [8226] 50 65.4, DrawText (js ''b'') 65 65.4,
         DrawText [8226] 50 80.8, DrawText (js ''c'') 65 80.8]
   \<and> trim (directText (Element ''li'' [] [Text (js ''a'')])) \<noteq> []
   \<and> map shape (added (enterList (enterList (initialLayout letterDoc)))
         (listItem noWrap ''ul'' (Element ''li'' [] [Text (js ''a'')])
            (enterList (enterList (initialLayout letterDoc))))) =
       [DrawText [8226] 70 50, DrawText (js ''a'') 85 50]"
proof -
  have fits: "noWrap ''helvetica'' ''normal'' 11 (js ''a'') 497 = [js ''a''] \<and>
    noWrap ''helvetica'' ''normal'' 11 (js ''b'') 497 = [js ''b''] \<and>
    noWrap ''helvetica'' ''normal'' 11 (js ''c'') 497 = [js ''c'']"
    by (simp add: noWrap_def)
  have inked: "trim (directText (Element ''li'' [] [Text (js ''a'')])) \<noteq> []"
    by (simp add: directText_def trim_def js_def isWhiteSpace_def)
  have item: "map shape (added (enterList (enterList (initialLayout letterDoc)))
         (listItem noWrap ''ul'' (Element ''li'' [] [Text (js ''a'')])
            (enterList (enterList (initialLayout letterDoc))))) =
       [DrawText [8226] 70 50, DrawText (js ''a'') 85 50]"
    by (simp add: eval_defs)
  show ?thesis
    using fits inked item
      bullets_and_indentation [of noWrap "Element ''li'' [] [Text (js ''a'')]"
        "enterList (enterList (initialLayout letterDoc))" "''ul''" "''ul''" "[]"]
    by blast
qed

lemma itemPrefix_ordered:
  "querySelector_checkbox n = None \<Longrightarrow>
   itemPrefix ''ol'' n (Some k) = decimal k @ js ''.''"
  by (simp add: itemPrefix_def showCounter_def)

text \<open>
  Claim C4, as amended. With a \<open>splitTextToSize\<close> that keeps \<open>x\<close> and \<open>y\<close> on one
  line, the ordered list \<open>1. x\n2. y\<close> is drawn with the prefixes \<open>1.\<close> and \<open>2.\<close>,
  whatever attributes the \<open>ol\<close> element carries. In general an item of an ordered list
  that has text and no check box among its descendants is drawn with the prefix \<open>N.\<close>,
  where \<open>N\<close> is one more than the top counter before the item; every item increments the
  top counter; and when the element children of the list walked so far are all items, the
  top counter is their number. So \<open>N\<close> is the position of the item in its own list. An
  item with a check box is drawn with the box instead.
\<close>

theorem ordered_items_are_numbered_by_position:
  "(sp ''helvetica'' ''normal'' 11 (js ''x'') 497 = [js ''x''] \<and>
    sp ''helvetica'' ''normal'' 11 (js ''y'') 497 = [js ''y''] \<longrightarrow>
      shapes (renderRoot sp letterDoc (orderedList attrs)) =
        [DrawText (js ''1.'') 50 50, DrawText (js ''x'') 65 50,
         DrawText (js ''2.'') 50 65.4, DrawText (js ''y'') 65 65.4])
   \<and> (querySelector_checkbox n = None \<and> trim (directText n) \<noteq> [] \<and>
        listCounters s = cs @ [k] \<longrightarrow>
        (\<exists>y0 rest. map shape (added s (listItem sp ''ol'' n s)) =
           DrawText (decimal (Suc k) @ js ''.'')
                    (MARGIN + (real_of_int (listDepth s) - 1) * 20) y0 # rest))
   \<and> (listCounters s = cs @ [k] \<longrightarrow>
        listCounters (processNode sp parent (Element ''li'' liAttrs kids) s) = cs @ [Suc k])
   \<and> ((\<forall>c\<in>set earlier. isElement c \<longrightarrow> tagName c = ''li'') \<longrightarrow>
        listCounters (processElements sp ''ol'' earlier (enterList s)) =
          listCounters s @ [length (filter isElement earlier)])"
proof -
  have example:
    "sp ''helvetica'' ''normal'' 11 (js ''x'') 497 = [js ''x''] \<and>
     sp ''helvetica'' ''normal'' 11 (js ''y'') 497 = [js ''y''] \<Longrightarrow>
      shapes (renderRoot sp letterDoc (orderedList attrs)) =
        [DrawText (js ''1.'') 50 50, DrawText (js ''x'') 65 50,
         DrawText (js ''2.'') 50 65.4, DrawText (js ''y'') 65 65.4]"
    by (simp add: eval_defs orderedList_def decimal.simps)
  have item: "querySelector_checkbox n = None \<and> trim (directText n) \<noteq> [] \<and>
        listCounters s = cs @ [k] \<Longrightarrow>
        \<exists>y0 rest. map shape (added s (listItem sp ''ol'' n s)) =
           DrawText (decimal (Suc k) @ js ''.'')
                    (MARGIN + (real_of_int (listDepth s) - 1) * 20) y0 # rest"
    using listItem_shapes [of n s sp "''ol''"] by (auto simp: itemPrefix_ordered)
  have position: "(\<forall>c\<in>set earlier. isElement c \<longrightarrow> tagName c = ''li'') \<Longrightarrow>
        listCounters (processElements sp ''ol'' earlier (enterList s)) =
          listCounters s @ [length (filter isElement earlier)]"
    using counter_counts_items [of earlier "enterList s" "listCounters s" 0 sp "''ol''"]
    by (simp add: enterList_lists)
  show ?thesis
    using example item item_bumps_counter [of s cs k sp parent liAttrs kids] position
    by blast
qed

text \<open>The ordered list with a \<open>start\<close> attribute and a splitter that never wraps.\<close>

theorem ordered_items_are_numbered_by_position_witness:
  "shapes (renderRoot noWrap letterDoc (orderedList [(''start'', js ''5'')])) =
        [DrawText (js ''1.'') 50 50, DrawText (js ''x'') 65 50,
         DrawText (js ''2.'') 50 65.4, DrawText (js ''y'') 65 65.4]
   \<and> listCounters (processElements noWrap ''ol''
         [Text [10], Element ''li'' [] [Text (js ''x'')], Text [10],
          Element ''li'' [] [Text (js ''y'')]]
         (enterList (initialLayout letterDoc))) = [2]
   \<and> listCounters (processNode noWrap ''ol'' (Element ''li'' [] [Text (js ''x'')])
         (enterList (initialLayout letterDoc))) = [1]"
proof -
  have fits: "noWrap ''helvetica'' ''normal'' 11 (js ''x'') 497 = [js ''x''] \<and>
    noWrap ''helvetica'' ''normal'' 11 (js ''y'') 497 = [js ''y'']"
    by (simp add: noWrap_def)
  have items: "\<forall>c\<in>set [Text [10], Element ''li'' [] [Text (js ''x'')], Text [10],
          Element ''li'' [] [Text (js ''y'')]]. isElement c \<longrightarrow> tagName c = ''li''"
    by simp
  have top: "listCounters (enterList (initialLayout letterDoc)) = [] @ [0]"
    by (simp add: enterList_def initialLayout_def jsPDF.extend_def layout.fields_def)
  have start: "listCounters (initialLayout letterDoc) = []"
    by (simp add: initialLayout_def jsPDF.extend_def layout.fields_def)
  show ?thesis
    using fits items top start
      ordered_items_are_numbered_by_position [where sp = noWrap
        and attrs = "[(''start'', js ''5'')]" and n = "Element ''li'' [] [Text (js ''x'')]"
        and s = "enterList (initialLayout letterDoc)" and cs = "[]" and k = 0
        and parent = "''ol''" and liAttrs = "[]" and kids = "[Text (js ''x'')]"
        and earlier = "[]"]
      ordered_items_are_numbered_by_position [where sp = noWrap
        and attrs = "[]" and n = "Element ''li'' [] [Text (js ''x'')]"
        and s = "initialLayout letterDoc" and cs = "[]" and k = 0
        and parent = "''ol''" and liAttrs = "[]" and kids = "[Text (js ''x'')]"
        and earlier = "[Text [10], Element ''li'' [] [Text (js ''x'')], Text [10],
          Element ''li'' [] [Text (js ''y'')]]"]
    by simp
qed

text \<open>
  Claim C4 as stated fails for a task item: the only item of the ordered task list
  \<open>1. [ ] x\<close> is drawn with the empty box (code unit 9744), not with \<open>1.\<close>.
\<close>

theorem task_item_in_ordered_list_has_a_box:
  "shapes (renderRoot noWrap letterDoc taskList) =
     [DrawText [9744] 50 50, DrawText (js ''x'') 65 50]
   \<and> [9744] \<noteq> js ''1.''"
  by (simp add: eval_defs taskList_def)

subsection \<open>Closed forms of the loops\<close>

lemma renderLines_after:
  "pageCount (renderLines ls x0 lh s) =
     fst (afterLines (pageHeight s) lh (pageCount s) (cursor_y s) (length ls))"
  "cursor_y (renderLines ls x0 lh s) =
     snd (afterLines (pageHeight s) lh (pageCount s) (cursor_y s) (length ls))"
  by (induction ls arbitrary: s) (simp_all add: step_defs Let_def)

lemma codeLines_renderLines:
  "codeLines ls lh s = renderLines (map (\<lambda>l. if l \<noteq> [] then l else [32]) ls) (MARGIN + 10) lh s"
  by (induction ls arbitrary: s) (simp_all add: Let_def)

lemma tableCells_frame [simp]:
  "pageWidth (tableCells sp isH cw rh i cells s) = pageWidth s"
  "pageHeight (tableCells sp isH cw rh i cells s) = pageHeight s"
  "pageCount (tableCells sp isH cw rh i cells s) = pageCount s"
  "cursor_y (tableCells sp isH cw rh i cells s) = cursor_y s"
  by (induction cells arbitrary: s i) (simp_all add: tableCell_def step_defs Let_def)

lemma tableCells_gfx:
  "gfx (tableCells sp isH cw rh i cells s) =
     (if cells = [] then gfx s
      else (gfx s)\<lparr>fontSize := FONT_SIZE_BODY, fontFamily := ''helvetica'',
                    fontStyle := (if isH then ''bold'' else ''normal'')\<rparr>)"
  by (induction cells arbitrary: s i) (simp_all add: tableCell_def step_defs Let_def)

lemma tableCells_drawn:
  "drawn (tableCells sp isH cw rh i cells s) =
     drawn s @
     map (\<lambda>(k, cell).
            \<lparr>onPage = pageCount s,
             pen = (gfx s)\<lparr>fontSize := FONT_SIZE_BODY, fontFamily := ''helvetica'',
                           fontStyle := (if isH then ''bold'' else ''normal'')\<rparr>,
             shape = DrawText
               (firstLine (sp ''helvetica'' (if isH then ''bold'' else ''normal'') FONT_SIZE_BODY
                             (trim (extractText (fst cell) 0 (snd cell))) (cw - 10)))
               (MARGIN + real k * cw + 5) (cursor_y s + rh / 2 + 3)\<rparr>)
         (enumerate i cells)"
  by (induction cells arbitrary: s i)
     (simp_all add: tableCell_def step_defs Let_def splitTextToSize_def)

lemma columnBorders_frame [simp]:
  "pageWidth (columnBorders ks cw rh s) = pageWidth s"
  "pageHeight (columnBorders ks cw rh s) = pageHeight s"
  "pageCount (columnBorders ks cw rh s) = pageCount s"
  "cursor_y (columnBorders ks cw rh s) = cursor_y s"
  "gfx (columnBorders ks cw rh s) = gfx s"
  by (induction ks arbitrary: s) (simp_all add: step_defs)

lemma columnBorders_drawn:
  "drawn (columnBorders ks cw rh s) =
     drawn s @
     map (\<lambda>k. \<lparr>onPage = pageCount s, pen = gfx s,
                shape = DrawLine (MARGIN + real k * cw) (cursor_y s)
                                 (MARGIN + real k * cw) (cursor_y s + rh)\<rparr>) ks"
  by (induction ks arbitrary: s) (simp_all add: step_defs)

subsection \<open>A relation kept by every case is kept by the walk\<close>

lemma processElements_relates:
  assumes "\<And>c parent s t. c \<in> set cs \<Longrightarrow> R s t \<Longrightarrow>
             R (processNode sp parent c s) (processNode sp parent c t)"
  shows "R s t \<Longrightarrow> R (processElements sp parent cs s) (processElements sp parent cs t)"
  using assms by (induction cs arbitrary: s t) simp_all

lemma processLists_relates:
  assumes "\<And>c parent s t. c \<in> set cs \<Longrightarrow> R s t \<Longrightarrow>
             R (processNode sp parent c s) (processNode sp parent c t)"
  shows "R s t \<Longrightarrow> R (processLists sp parent cs s) (processLists sp parent cs t)"
  using assms by (induction cs arbitrary: s t) auto

lemma walk_relates:
  fixes R :: "layout \<Rightarrow> layout \<Rightarrow> bool"
  assumes r_heading: "\<And>b sz a parent n s t. 0 \<le> b \<Longrightarrow> 0 \<le> sz \<Longrightarrow> 0 \<le> a \<Longrightarrow> R s t \<Longrightarrow>
             R (heading sp b sz a parent n s) (heading sp b sz a parent n t)"
    and r_paragraph: "\<And>parent n s t. R s t \<Longrightarrow>
             R (paragraphBlock sp parent n s) (paragraphBlock sp parent n t)"
    and r_enter: "\<And>s t. R s t \<Longrightarrow> R (enterList s) (enterList t)"
    and r_exit: "\<And>s t. R s t \<Longrightarrow> R (exitList s) (exitList t)"
    and r_item: "\<And>parent n s t. R s t \<Longrightarrow>
             R (listItem sp parent n s) (listItem sp parent n t)"
    and r_quote: "\<And>parent n s t. R s t \<Longrightarrow>
             R (blockquote sp parent n s) (blockquote sp parent n t)"
    and r_pre: "\<And>n s t. R s t \<Longrightarrow> R (preBlock n s) (preBlock n t)"
    and r_table: "\<And>n s t. R s t \<Longrightarrow> R (tableBlock sp n s) (tableBlock sp n t)"
    and r_rule: "\<And>s t. R s t \<Longrightarrow> R (horizontalRule s) (horizontalRule t)"
  shows "R s t \<Longrightarrow> R (processNode sp parent n s) (processNode sp parent n t)"
proof (induction n arbitrary: parent s t)
  case (Text x)
  then show ?case by simp
next
  case (Comment x)
  then show ?case by simp
next
  case (Element tag attrs cs)
  have kids: "\<And>p u v. R u v \<Longrightarrow> R (processElements sp p cs u) (processElements sp p cs v)"
    using Element.IH by (rule processElements_relates)
  have lists: "\<And>p u v. R u v \<Longrightarrow> R (processLists sp p cs u) (processLists sp p cs v)"
    using Element.IH by (rule processLists_relates)
  show ?case
    using Element.prems
    by (simp add: processNode.simps(3) r_heading r_paragraph r_enter r_exit r_item r_quote
        r_pre r_table r_rule kids lists
        FONT_SIZE_H1_def FONT_SIZE_H2_def FONT_SIZE_H3_def FONT_SIZE_H4_def)
qed

subsection \<open>The graphics state does not steer the layout\<close>

lemma renderText_frame [simp]:
  "pageWidth (renderText sp str sz opts s) = pageWidth s"
  "pageHeight (renderText sp str sz opts s) = pageHeight s"
  by (simp_all add: renderText_def step_defs Let_def)

lemma renderText_after:
  "pageCount (renderText sp str sz opts s) =
     fst (afterLines (pageHeight s) (getLineHeight sz)
           (pageCount (if prefix opts \<noteq> [] then checkPageBreak (getLineHeight sz) s else s))
           (cursor_y (if prefix opts \<noteq> [] then checkPageBreak (getLineHeight sz) s else s))
           (length (sp ''helvetica''
              (if bold opts then (if italic opts then ''bolditalic'' else ''bold'')
               else (if italic opts then ''italic'' else ''normal''))
              sz str (contentWidth s - indent opts - (if prefix opts \<noteq> [] then 15 else 0)))))"
  "cursor_y (renderText sp str sz opts s) =
     snd (afterLines (pageHeight s) (getLineHeight sz)
           (pageCount (if prefix opts \<noteq> [] then checkPageBreak (getLineHeight sz) s else s))
           (cursor_y (if prefix opts \<noteq> [] then checkPageBreak (getLineHeight sz) s else s))
           (length (sp ''helvetica''
              (if bold opts then (if italic opts then ''bolditalic'' else ''bold'')
               else (if italic opts then ''italic'' else ''normal''))
              sz str (contentWidth s - indent opts - (if prefix opts \<noteq> [] then 15 else 0)))))"
  by (simp_all add: renderText_def Let_def renderLines_after step_defs splitTextToSize_def
      contentWidth_def)

lemma checkPageBreak_geometry:
  "sameGeometry s t \<Longrightarrow> sameGeometry (checkPageBreak h s) (checkPageBreak h t)"
  by (simp add: sameGeometry_def placed_def step_defs)

lemma renderText_geometry:
  assumes "sameGeometry s t"
  shows "sameGeometry (renderText sp str sz opts s) (renderText sp str sz opts t)"
proof -
  have same: "pageWidth s = pageWidth t" "pageHeight s = pageHeight t" "pageCount s = pageCount t"
    "cursor_y s = cursor_y t" "listDepth s = listDepth t" "listCounters s = listCounters t"
    "map (\<lambda>e. (onPage e, shape e)) (drawn s) = map (\<lambda>e. (onPage e, shape e)) (drawn t)"
    using assms by (simp_all add: sameGeometry_def placed_def)
  have brk: "pageCount (checkPageBreak h s) = pageCount (checkPageBreak h t)"
    "cursor_y (checkPageBreak h s) = cursor_y (checkPageBreak h t)" for h
    using checkPageBreak_geometry [OF assms, of h] by (simp_all add: sameGeometry_def)
  show ?thesis
    by (simp add: sameGeometry_def placed_def renderText_after renderText_drawn same brk
        contentWidth_def o_def split_def)
qed

lemma sameGeometry_fields:
  assumes "sameGeometry s t"
  shows "pageWidth s = pageWidth t" "pageHeight s = pageHeight t" "pageCount s = pageCount t"
    "cursor_y s = cursor_y t" "listDepth s = listDepth t" "listCounters s = listCounters t"
    "map (\<lambda>e. (onPage e, shape e)) (drawn s) = map (\<lambda>e. (onPage e, shape e)) (drawn t)"
  using assms by (simp_all add: sameGeometry_def placed_def)

lemmas geometry_simps =
  sameGeometry_def placed_def Let_def step_defs renderText_after renderText_drawn
  renderLines_after renderLines_drawn codeLines_renderLines tableCells_drawn columnBorders_drawn
  contentWidth_def o_def split_def

lemma addSpace_geometry:
  "sameGeometry s t \<Longrightarrow> sameGeometry (addSpace p s) (addSpace p t)"
  by (simp add: sameGeometry_def placed_def addSpace_def)

lemma heading_geometry:
  assumes "sameGeometry s t"
  shows "sameGeometry (heading sp b sz a parent n s) (heading sp b sz a parent n t)"
  using sameGeometry_fields [OF assms] by (simp add: heading_def geometry_simps)

lemma paragraphBlock_geometry:
  assumes "sameGeometry s t"
  shows "sameGeometry (paragraphBlock sp parent n s) (paragraphBlock sp parent n t)"
  using sameGeometry_fields [OF assms] by (simp add: paragraphBlock_def geometry_simps)

lemma enterList_geometry:
  assumes "sameGeometry s t"
  shows "sameGeometry (enterList s) (enterList t)"
  using sameGeometry_fields [OF assms] by (simp add: enterList_def geometry_simps)

lemma exitList_geometry:
  assumes "sameGeometry s t"
  shows "sameGeometry (exitList s) (exitList t)"
  using sameGeometry_fields [OF assms] by (simp add: exitList_def geometry_simps)

lemma listItem_geometry:
  assumes "sameGeometry s t"
  shows "sameGeometry (listItem sp parent n s) (listItem sp parent n t)"
  using sameGeometry_fields [OF assms] by (simp add: listItem_def geometry_simps)

lemma blockquote_geometry:
  assumes "sameGeometry s t"
  shows "sameGeometry (blockquote sp parent n s) (blockquote sp parent n t)"
  using sameGeometry_fields [OF assms] by (simp add: blockquote_def geometry_simps)

lemma preBlock_geometry:
  assumes "sameGeometry s t"
  shows "sameGeometry (preBlock n s) (preBlock n t)"
  using sameGeometry_fields [OF assms] by (simp add: preBlock_def geometry_simps)

lemma horizontalRule_geometry:
  assumes "sameGeometry s t"
  shows "sameGeometry (horizontalRule s) (horizontalRule t)"
  using sameGeometry_fields [OF assms] by (simp add: horizontalRule_def geometry_simps)

lemma tableRow_geometry:
  assumes "sameGeometry s t"
  shows "sameGeometry (tableRow sp cols cw rh row s) (tableRow sp cols cw rh row t)"
  using sameGeometry_fields [OF assms] by (simp add: tableRow_def geometry_simps)

lemma tableRows_geometry:
  "sameGeometry s t \<Longrightarrow>
   sameGeometry (tableRows sp cols cw rh rows s) (tableRows sp cols cw rh rows t)"
  by (induction rows arbitrary: s t) (simp_all add: tableRow_geometry)

lemma tableBlock_geometry:
  assumes "sameGeometry s t"
  shows "sameGeometry (tableBlock sp n s) (tableBlock sp n t)"
proof -
  have width: "contentWidth (addSpace 10 s) = contentWidth (addSpace 10 t)"
    using sameGeometry_fields [OF assms] by (simp add: contentWidth_def addSpace_def)
  show ?thesis
    unfolding tableBlock_def Let_def width
    by (auto split: list.splits
        intro!: addSpace_geometry tableRows_geometry tableRow_geometry assms)
qed

lemma walk_geometry:
  "sameGeometry s t \<Longrightarrow>
   sameGeometry (processNode sp parent n s) (processNode sp parent n t)"
  by (rule walk_relates [where R = sameGeometry])
     (simp_all add: heading_geometry paragraphBlock_geometry enterList_geometry
        exitList_geometry listItem_geometry blockquote_geometry preBlock_geometry
        tableBlock_geometry horizontalRule_geometry)

lemma renderRoot_geometry:
  assumes "pageWidth d1 = pageWidth d2" "pageHeight d1 = pageHeight d2"
    "pageCount d1 = pageCount d2" "drawn d1 = []" "drawn d2 = []"
  shows "sameGeometry (renderRoot sp d1 rootEl) (renderRoot sp d2 rootEl)"
proof -
  have "sameGeometry (initialLayout d1) (initialLayout d2)"
    using assms
    by (simp add: sameGeometry_def placed_def initialLayout_def jsPDF.extend_def
        layout.fields_def)
  then show ?thesis
    unfolding renderRoot_def
    by (rule processElements_relates [where R = sameGeometry, rotated]) (rule walk_geometry)
qed

lemma truncate_fields [simp]:
  "pageCount (jsPDF.truncate s) = pageCount s"
  "drawn (jsPDF.truncate s) = drawn s"
  by (simp_all add: jsPDF.truncate_def)

text \<open>
  Claim C9. Take two fresh documents, with nothing drawn, the same page size and the same
  number of pages; their graphics states may differ. Laid out from the same HTML text, with
  the same parser and the same \<open>splitTextToSize\<close>, both end with the same number of
  pages and the same drawing calls with the same arguments on the same pages in the same
  order; in particular with the same number of text lines. The same holds for the walk
  over a given tree. Two runs on equal documents are the case \<open>d1 = d2\<close>.
\<close>

theorem layout_is_determined_by_tree_and_page:
  "pageWidth d1 = pageWidth d2 \<and> pageHeight d1 = pageHeight d2 \<and>
   pageCount d1 = pageCount d2 \<and> drawn d1 = [] \<and> drawn d2 = [] \<longrightarrow>
     pageCount (renderToPdf parse sp d1 html) = pageCount (renderToPdf parse sp d2 html)
     \<and> placed (renderToPdf parse sp d1 html) = placed (renderToPdf parse sp d2 html)
     \<and> length (filter isText (shapes (renderToPdf parse sp d1 html))) =
         length (filter isText (shapes (renderToPdf parse sp d2 html)))
     \<and> pageCount (renderRoot sp d1 rootEl) = pageCount (renderRoot sp d2 rootEl)
     \<and> placed (renderRoot sp d1 rootEl) = placed (renderRoot sp d2 rootEl)"
proof (intro impI, elim conjE)
  assume fresh: "pageWidth d1 = pageWidth d2" "pageHeight d1 = pageHeight d2"
    "pageCount d1 = pageCount d2" "drawn d1 = []" "drawn d2 = []"
  have tree: "pageCount (renderRoot sp d1 r) = pageCount (renderRoot sp d2 r)"
    "placed (renderRoot sp d1 r) = placed (renderRoot sp d2 r)" for r
    using renderRoot_geometry [OF fresh, of sp r] by (simp_all add: sameGeometry_def)
  have count: "pageCount (renderToPdf parse sp d1 html) = pageCount (renderToPdf parse sp d2 html)"
    using fresh tree by (simp add: renderToPdf_def split: option.splits)
  have place: "placed (renderToPdf parse sp d1 html) = placed (renderToPdf parse sp d2 html)"
    using fresh tree by (simp add: renderToPdf_def placed_def split: option.splits)
  have "shapes (renderToPdf parse sp d1 html) = shapes (renderToPdf parse sp d2 html)"
    using arg_cong [OF place, of "map snd"] by (simp add: shapes_def placed_def o_def)
  with count place tree
  show "pageCount (renderToPdf parse sp d1 html) = pageCount (renderToPdf parse sp d2 html)
     \<and> placed (renderToPdf parse sp d1 html) = placed (renderToPdf parse sp d2 html)
     \<and> length (filter isText (shapes (renderToPdf parse sp d1 html))) =
         length (filter isText (shapes (renderToPdf parse sp d2 html)))
     \<and> pageCount (renderRoot sp d1 rootEl) = pageCount (renderRoot sp d2 rootEl)
     \<and> placed (renderRoot sp d1 rootEl) = placed (renderRoot sp d2 rootEl)"
    by simp
qed

text \<open>The bullet list on two letter documents with different graphics states.\<close>

theorem layout_is_determined_witness:
  "pageCount (renderRoot noWrap letterDoc bulletList) = pageCount (renderRoot noWrap otherPen bulletList)
   \<and> placed (renderRoot noWrap letterDoc bulletList) = placed (renderRoot noWrap otherPen bulletList)
   \<and> gfx letterDoc \<noteq> gfx otherPen"
  using layout_is_determined_by_tree_and_page [of letterDoc otherPen "\<lambda>html. None" noWrap "[]" bulletList]
  by (simp add: letterDoc_def otherPen_def)

subsection \<open>Pagination\<close>


lemma layoutOk_setters [simp]:
  "layoutOk h (setFontSize sz s) = layoutOk h s"
  "layoutOk h (setFont family style s) = layoutOk h s"
  "layoutOk h (setTextColor c s) = layoutOk h s"
  "layoutOk h (setFillColor c s) = layoutOk h s"
  "layoutOk h (setDrawColor c s) = layoutOk h s"
  "layoutOk h (setLineWidth w s) = layoutOk h s"
  by (simp_all add: layoutOk_def surface_defs)

lemma addSpace_ok: "layoutOk h s \<Longrightarrow> 0 \<le> p \<Longrightarrow> layoutOk h (addSpace p s)"
  by (simp add: layoutOk_def addSpace_def)

lemma renderLines_ok:
  "layoutOk h s \<Longrightarrow> 0 \<le> lh \<Longrightarrow> MARGIN \<le> h - MARGIN \<Longrightarrow>
   layoutOk h (renderLines ls x0 lh s)"
proof (induction ls arbitrary: s)
  case Nil
  then show ?case by simp
next
  case (Cons l ls)
  let ?s1 = "checkPageBreak lh s"
  let ?s2 = "doc_text l x0 (cursor_y ?s1) ?s1"
  have "layoutOk h (?s2\<lparr>cursor_y := cursor_y ?s2 + lh\<rparr>)"
    using Cons.prems by (auto simp: layoutOk_def step_defs inBand_def)
  then show ?case
    using Cons.prems by (simp add: Let_def Cons.IH)
qed

lemma renderText_ok:
  assumes "layoutOk h s" and "0 \<le> sz" and "MARGIN \<le> h - MARGIN"
  shows "layoutOk h (renderText sp str sz opts s)"
proof -
  have lh: "0 \<le> getLineHeight sz"
    using assms(2) by (simp add: getLineHeight_def)
  let ?s3 = "setTextColor (color opts) (setFont ''helvetica''
      (if bold opts then (if italic opts then ''bolditalic'' else ''bold'')
       else (if italic opts then ''italic'' else ''normal'')) (setFontSize sz s))"
  let ?s' = "checkPageBreak (getLineHeight sz) ?s3"
  have "layoutOk h (doc_text (prefix opts) (MARGIN + indent opts) (cursor_y ?s') ?s')"
    using assms lh by (auto simp: layoutOk_def step_defs inBand_def)
  moreover have "layoutOk h ?s3"
    using assms(1) by simp
  ultimately show ?thesis
    using lh assms(3) by (simp add: renderText_def Let_def renderLines_ok)
qed

lemma heading_ok:
  assumes "layoutOk h s" and "MARGIN \<le> h - MARGIN" and "0 \<le> b" and "0 \<le> sz" and "0 \<le> a"
  shows "layoutOk h (heading sp b sz a parent n s)"
  using assms by (simp add: heading_def Let_def addSpace_ok renderText_ok)

lemma paragraphBlock_ok:
  assumes "layoutOk h s" and "MARGIN \<le> h - MARGIN"
  shows "layoutOk h (paragraphBlock sp parent n s)"
  using assms
  by (simp add: paragraphBlock_def Let_def addSpace_ok renderText_ok FONT_SIZE_BODY_def)

lemma enterList_ok: "layoutOk h s \<Longrightarrow> layoutOk h (enterList s)"
  by (simp add: layoutOk_def enterList_def)

lemma exitList_ok: "layoutOk h s \<Longrightarrow> layoutOk h (exitList s)"
  by (simp add: layoutOk_def exitList_def addSpace_def Let_def)

lemma listItem_ok:
  assumes "layoutOk h s" and "MARGIN \<le> h - MARGIN"
  shows "layoutOk h (listItem sp parent n s)"
proof -
  have "layoutOk h (s\<lparr>listCounters := cs\<rparr>)" for cs
    using assms(1) by (simp add: layoutOk_def)
  then show ?thesis
    using assms by (simp add: listItem_def Let_def renderText_ok FONT_SIZE_BODY_def)
qed

lemma blockquote_ok:
  assumes "layoutOk h s" and "MARGIN \<le> h - MARGIN"
  shows "layoutOk h (blockquote sp parent n s)"
proof -
  let ?opts = "defaults\<lparr>italic := True, indent := 20, color := (100, 100, 100)\<rparr>"
  have quoted: "layoutOk h (renderText sp str FONT_SIZE_BODY ?opts (addSpace 8 s))" for str
    using assms by (simp add: addSpace_ok renderText_ok FONT_SIZE_BODY_def)
  have sideRule: "layoutOk h u \<Longrightarrow>
      layoutOk h (addSpace 8 (doc_line x1 v1 x2 v2 (setLineWidth 3 (setDrawColor c u))))"
    for u x1 v1 x2 v2 c
    by (simp add: layoutOk_def step_defs)
  show ?thesis
    using assms(1) by (simp add: blockquote_def Let_def sideRule quoted)
qed

lemma preBlock_ok:
  assumes "layoutOk h s" and "MARGIN \<le> h - MARGIN"
  shows "layoutOk h (preBlock n s)"
proof -
  have start: "layoutOk h
      ((setFontSize sz (setFont ff fs (doc_roundedRect x0 v w ht rx ry style
          (setFillColor c (checkPageBreak need (addSpace 8 s))))))
       \<lparr>cursor_y := cursor_y (setFontSize sz (setFont ff fs (doc_roundedRect x0 v w ht rx ry style
          (setFillColor c (checkPageBreak need (addSpace 8 s)))))) + 10\<rparr>)"
    for sz ff fs x0 v w ht rx ry style c need
    using assms by (auto simp: layoutOk_def step_defs)
  have finish: "layoutOk h u \<Longrightarrow> layoutOk h (addSpace 8 (u\<lparr>cursor_y := cursor_y u + 10\<rparr>))" for u
    by (simp add: layoutOk_def addSpace_def)
  have lh: "0 \<le> getLineHeight FONT_SIZE_CODE"
    by (simp add: getLineHeight_def FONT_SIZE_CODE_def)
  show ?thesis
    using assms(1)
    by (simp add: preBlock_def Let_def codeLines_renderLines finish renderLines_ok start lh assms(2))
qed

lemma tableRow_ok:
  assumes "layoutOk h s" and "6 \<le> rh" and "MARGIN + rh \<le> h - MARGIN"
  shows "layoutOk h (tableRow sp cols cw rh row s)"
  using assms
  by (auto simp: tableRow_def Let_def layoutOk_def step_defs tableCells_drawn tableCells_gfx
      columnBorders_drawn inBand_def list_all_iff)

lemma tableRows_ok:
  "layoutOk h s \<Longrightarrow> 6 \<le> rh \<Longrightarrow> MARGIN + rh \<le> h - MARGIN \<Longrightarrow>
   layoutOk h (tableRows sp cols cw rh rows s)"
  by (induction rows arbitrary: s) (simp_all add: tableRow_ok)

lemma tableBlock_ok:
  assumes "layoutOk h s" and "MARGIN + (getLineHeight FONT_SIZE_BODY + 12) \<le> h - MARGIN"
  shows "layoutOk h (tableBlock sp n s)"
proof -
  have "6 \<le> getLineHeight FONT_SIZE_BODY + 12"
    by (simp add: getLineHeight_def FONT_SIZE_BODY_def)
  then show ?thesis
    using assms
    unfolding tableBlock_def Let_def
    by (auto split: list.splits intro!: addSpace_ok tableRows_ok tableRow_ok)
qed

lemma horizontalRule_ok:
  assumes "layoutOk h s" and "MARGIN \<le> h - MARGIN"
  shows "layoutOk h (horizontalRule s)"
  using assms by (auto simp: horizontalRule_def Let_def layoutOk_def step_defs inBand_def)

lemma walk_ok:
  assumes "MARGIN + (getLineHeight FONT_SIZE_BODY + 12) \<le> h - MARGIN"
  shows "layoutOk h s \<Longrightarrow> layoutOk h (processNode sp parent n s)"
proof -
  have room: "MARGIN \<le> h - MARGIN"
    using assms by (simp add: getLineHeight_def FONT_SIZE_BODY_def)
  have "(\<lambda>u v. layoutOk h u) s s \<Longrightarrow>
        (\<lambda>u v. layoutOk h u) (processNode sp parent n s) (processNode sp parent n s)"
    by (rule walk_relates [where R = "\<lambda>u v. layoutOk h u"])
       (simp_all add: heading_ok paragraphBlock_ok enterList_ok exitList_ok listItem_ok
          blockquote_ok preBlock_ok tableBlock_ok horizontalRule_ok room assms)
  then show "layoutOk h s \<Longrightarrow> layoutOk h (processNode sp parent n s)"
    by simp
qed

lemmas eval_more = eval_defs blockquote_def preBlock_def tableBlock_def tableRow_def
  tableCell_def horizontalRule_def heading_def paragraphBlock_def textContent_def
  querySelectorAll_def firstLine_def FONT_SIZE_CODE_def

text \<open>
  Claim C2, as amended. On a page tall enough for one table row between the margins (a
  letter page is), every text run, every rectangle of a table and every line of a table or
  of a horizontal rule that the layout adds has its vertical coordinates within
  \<open>[MARGIN, pageHeight - MARGIN]\<close>, provided the entries already in the document have;
  the check comes before the drawing call. The rule beside a quotation and the rounded
  background of a code block are placed relative to the cursor without such a check.
  \<open>checkPageBreak\<close> appends a page and resets the cursor to \<open>MARGIN\<close>, drawing nothing,
  exactly when the cursor plus the needed height exceeds \<open>pageHeight - MARGIN\<close>, and
  otherwise changes nothing.
\<close>

theorem text_and_table_drawing_is_page_checked:
  "(MARGIN + (getLineHeight FONT_SIZE_BODY + 12) \<le> pageHeight d - MARGIN \<and>
    list_all (pageChecked (pageHeight d)) (drawn d) \<longrightarrow>
      list_all (pageChecked (pageHeight d)) (drawn (renderRoot sp d rootEl)))
   \<and> (cursor_y s + neededHeight > pageHeight s - MARGIN \<longrightarrow>
        pageCount (checkPageBreak neededHeight s) = Suc (pageCount s) \<and>
        cursor_y (checkPageBreak neededHeight s) = MARGIN \<and>
        drawn (checkPageBreak neededHeight s) = drawn s)
   \<and> (\<not> cursor_y s + neededHeight > pageHeight s - MARGIN \<longrightarrow>
        checkPageBreak neededHeight s = s)"
proof -
  have walk: "layoutOk (pageHeight d) (renderRoot sp d rootEl)"
    if tall: "MARGIN + (getLineHeight FONT_SIZE_BODY + 12) \<le> pageHeight d - MARGIN"
      and old: "list_all (pageChecked (pageHeight d)) (drawn d)"
  proof -
    have "layoutOk (pageHeight d) (initialLayout d)"
      using old
      by (simp add: layoutOk_def initialLayout_def jsPDF.extend_def layout.fields_def)
    then have "(\<lambda>u v. layoutOk (pageHeight d) u)
        (processElements sp (tagName rootEl) (childNodes rootEl) (initialLayout d))
        (processElements sp (tagName rootEl) (childNodes rootEl) (initialLayout d))"
      by (rule processElements_relates [where R = "\<lambda>u v. layoutOk (pageHeight d) u", rotated])
         (rule walk_ok [OF tall])
    then show ?thesis
      by (simp add: renderRoot_def)
  qed
  show ?thesis
    using walk by (auto simp: layoutOk_def step_defs)
qed

text \<open>The quotation on a letter page, and a page-break check near the bottom of the page
  and at its top.\<close>

theorem text_and_table_drawing_is_page_checked_witness:
  "list_all (pageChecked 792) (drawn (renderRoot noWrap letterDoc quotation))
   \<and> pageCount (checkPageBreak 15.4 (addSpace 680 (initialLayout letterDoc))) = 2
   \<and> cursor_y (checkPageBreak 15.4 (addSpace 680 (initialLayout letterDoc))) = MARGIN
   \<and> checkPageBreak 15.4 (initialLayout letterDoc) = initialLayout letterDoc"
proof -
  have tall: "MARGIN + (getLineHeight FONT_SIZE_BODY + 12) \<le> pageHeight letterDoc - MARGIN"
    by (simp add: MARGIN_def getLineHeight_def FONT_SIZE_BODY_def letterDoc_def)
  have fresh: "list_all (pageChecked (pageHeight letterDoc)) (drawn letterDoc)"
    by (simp add: letterDoc_def)
  have low: "cursor_y (addSpace 680 (initialLayout letterDoc)) + 15.4
      > pageHeight (addSpace 680 (initialLayout letterDoc)) - MARGIN"
    by (simp add: addSpace_def initialLayout_def jsPDF.extend_def layout.fields_def
        letterDoc_def MARGIN_def)
  have high: "\<not> cursor_y (initialLayout letterDoc) + 15.4
      > pageHeight (initialLayout letterDoc) - MARGIN"
    by (simp add: initialLayout_def jsPDF.extend_def layout.fields_def letterDoc_def MARGIN_def)
  have pages: "pageCount (addSpace 680 (initialLayout letterDoc)) = 1"
    "pageHeight letterDoc = 792"
    by (simp_all add: addSpace_def initialLayout_def jsPDF.extend_def layout.fields_def
        letterDoc_def)
  show ?thesis
    using tall fresh low high pages
      text_and_table_drawing_is_page_checked [of letterDoc noWrap quotation
        "addSpace 680 (initialLayout letterDoc)" "15.4"]
      text_and_table_drawing_is_page_checked [of letterDoc noWrap quotation
        "initialLayout letterDoc" "15.4"]
    by simp
qed

text \<open>
  Claim C2 as stated fails for the quotation \<open>> q\<close> at the top of a letter page: the
  rule beside it is drawn from \<open>startY - 10 = 48\<close>, above the margin of 50.
\<close>

theorem quotation_rule_starts_above_the_margin:
  "shapes (renderRoot noWrap letterDoc quotation) =
     [DrawText (js ''q'') 70 58, DrawLine 58 48 58 68.4]
   \<and> \<not> list_all (withinPage (pageHeight letterDoc)) (drawn (renderRoot noWrap letterDoc quotation))"
  by (simp add: eval_more quotation_def withinPage_def inBand_def)

subsection \<open>Code blocks\<close>

lemma checkPageBreak_frame [simp]:
  "drawn (checkPageBreak need s) = drawn s"
  "pageWidth (checkPageBreak need s) = pageWidth s"
  "pageHeight (checkPageBreak need s) = pageHeight s"
  "gfx (checkPageBreak need s) = gfx s"
  "contentWidth (checkPageBreak need s) = contentWidth s"
  by (simp_all add: checkPageBreak_def addPage_def contentWidth_def)

lemma checkPageBreak_pages: "pageCount s \<le> pageCount (checkPageBreak need s)"
  by (simp add: checkPageBreak_def addPage_def)

lemma placeLines_fit:
  "MARGIN + lh \<le> h - MARGIN \<Longrightarrow>
   list_all (\<lambda>(pg, y1). y1 + lh \<le> h - MARGIN) (placeLines h lh pg y0 n)"
  by (induction n arbitrary: pg y0) simp_all

lemma afterLines_pages: "pg \<le> fst (afterLines h lh pg y0 n)"
proof (induction n arbitrary: pg y0)
  case 0
  show ?case by simp
next
  case (Suc n)
  show ?case
    using Suc.IH [of "Suc pg" "MARGIN + lh"] Suc.IH [of pg "y0 + lh"] by simp
qed

lemma afterLines_break:
  "0 < n \<Longrightarrow> y0 + real n * lh > h - MARGIN \<Longrightarrow> pg < fst (afterLines h lh pg y0 n)"
proof (induction n arbitrary: pg y0)
  case 0
  then show ?case by simp
next
  case (Suc n)
  show ?case
  proof (cases "y0 + lh > h - MARGIN")
    case True
    then show ?thesis
      using afterLines_pages [of "Suc pg" h lh "MARGIN + lh" n] by simp
  next
    case False
    with Suc.prems have more: "0 < n" "(y0 + lh) + real n * lh > h - MARGIN"
      by (cases n; simp add: algebra_simps)+
    show ?thesis
      using False Suc.IH [OF more] by simp
  qed
qed

lemma splitLines_not_Nil [simp]: "splitLines str \<noteq> []"
  by (induction str) (simp_all split: list.splits)

lemma preBlock_drawn:
  fixes n :: node and s :: layout
  defines "lines \<equiv> splitLines (trim (textContent n))"
    and "lh \<equiv> getLineHeight FONT_SIZE_CODE"
  defines "s2 \<equiv> checkPageBreak (min (real (length lines) * lh + 20) 100) (addSpace 8 s)"
  assumes code: "trim (textContent n) \<noteq> []"
  shows "drawn (preBlock n s) =
     drawn s
     @ \<lparr>onPage = pageCount s2, pen = (gfx s)\<lparr>fillColor := (245, 245, 245)\<rparr>,
         shape = DrawRoundedRect MARGIN (cursor_y s2 - 5) (contentWidth s)
                   (real (length lines) * lh + 20) 4 4 Fill\<rparr>
     # map (\<lambda>(l, pg, y1).
              \<lparr>onPage = pg,
               pen = (gfx s)\<lparr>fillColor := (245, 245, 245), fontFamily := ''courier'',
                             fontStyle := ''normal'', fontSize := FONT_SIZE_CODE\<rparr>,
               shape = DrawText (if l \<noteq> [] then l else [32]) (MARGIN + 10) y1\<rparr>)
         (zip lines (placeLines (pageHeight s) lh (pageCount s2) (cursor_y s2 + 10) (length lines)))"
    and "pageCount (preBlock n s) =
           fst (afterLines (pageHeight s) lh (pageCount s2) (cursor_y s2 + 10) (length lines))"
  using code unfolding lines_def lh_def s2_def
  by (simp_all add: preBlock_def Let_def codeLines_renderLines renderLines_drawn renderLines_after
      surface_defs addSpace_def zip_map1 o_def split_def contentWidth_def)

lemma map_of_zipped_right:
  "length xs = length ys \<Longrightarrow> map (\<lambda>p. f (snd p)) (zip xs ys) = map f ys"
  by (induction xs ys rule: list_induct2) simp_all

text \<open>
  Claim C5. A \<open>pre\<close> element with code draws its background and then one text per
  literal line, an empty line as a space. The lines are placed by the page-break policy,
  line by line, from 10 points below the cursor that the check of the block leaves: each
  line is on one page, and when a line fits between the margins of an empty page, each
  line ends at or above \<open>pageHeight - MARGIN\<close> on its page. When the lines do not fit
  between the cursor (8 + 10 points further down) and \<open>pageHeight - MARGIN\<close>, the
  document has more pages after the block than before.
\<close>

theorem code_lines_are_checked_one_by_one:
  "trim (textContent n) \<noteq> [] \<longrightarrow>
     (let lines = splitLines (trim (textContent n));
          lh = getLineHeight FONT_SIZE_CODE;
          s2 = checkPageBreak (min (real (length lines) * lh + 20) 100) (addSpace 8 s);
          places = placeLines (pageHeight s) lh (pageCount s2) (cursor_y s2 + 10) (length lines)
      in map shape (added s (preBlock n s)) =
           DrawRoundedRect MARGIN (cursor_y s2 - 5) (contentWidth s)
             (real (length lines) * lh + 20) 4 4 Fill
           # map (\<lambda>(l, pg, y1). DrawText (if l \<noteq> [] then l else [32]) (MARGIN + 10) y1)
               (zip lines places)
         \<and> map onPage (added s (preBlock n s)) = pageCount s2 # map fst places
         \<and> length places = length lines
         \<and> (MARGIN + lh \<le> pageHeight s - MARGIN \<longrightarrow>
              list_all (\<lambda>(pg, y1). y1 + lh \<le> pageHeight s - MARGIN) places)
         \<and> (cursor_y s + 18 + real (length lines) * lh > pageHeight s - MARGIN \<longrightarrow>
              pageCount s < pageCount (preBlock n s)))"
proof
  assume code: "trim (textContent n) \<noteq> []"
  let ?lines = "splitLines (trim (textContent n))"
  let ?lh = "getLineHeight FONT_SIZE_CODE"
  let ?s2 = "checkPageBreak (min (real (length ?lines) * ?lh + 20) 100) (addSpace 8 s)"
  let ?places = "placeLines (pageHeight s) ?lh (pageCount ?s2) (cursor_y ?s2 + 10) (length ?lines)"
  note closed = preBlock_drawn [OF code, of s]
  have len: "length ?places = length ?lines"
    by simp
  have shapes: "map shape (added s (preBlock n s)) =
      DrawRoundedRect MARGIN (cursor_y ?s2 - 5) (contentWidth s)
        (real (length ?lines) * ?lh + 20) 4 4 Fill
      # map (\<lambda>(l, pg, y1). DrawText (if l \<noteq> [] then l else [32]) (MARGIN + 10) y1)
          (zip ?lines ?places)"
    by (simp add: added_def closed(1) o_def split_def)
  have pages: "map onPage (added s (preBlock n s)) = pageCount ?s2 # map fst ?places"
    using map_of_zipped_right [OF len [symmetric], of fst]
    by (simp add: added_def closed(1) o_def split_def)
  have fit: "list_all (\<lambda>(pg, y1). y1 + ?lh \<le> pageHeight s - MARGIN) ?places"
    if "MARGIN + ?lh \<le> pageHeight s - MARGIN"
    using that by (rule placeLines_fit)
  have break: "pageCount s < pageCount (preBlock n s)"
    if over: "cursor_y s + 18 + real (length ?lines) * ?lh > pageHeight s - MARGIN"
  proof (cases "pageCount ?s2 = pageCount s")
    case True
    then have "cursor_y ?s2 = cursor_y s + 8"
      by (simp add: checkPageBreak_def addPage_def addSpace_def split: if_splits)
    moreover have "0 < length ?lines"
      by simp
    ultimately have "pageCount ?s2 < pageCount (preBlock n s)"
      using over
      by (simp only: closed(2)) (rule afterLines_break, simp_all add: algebra_simps)
    with True show ?thesis by simp
  next
    case False
    have "pageCount s \<le> pageCount ?s2"
      using checkPageBreak_pages [of "addSpace 8 s"] by (simp add: addSpace_def)
    with False have "pageCount s < pageCount ?s2" by simp
    also have "pageCount ?s2 \<le> pageCount (preBlock n s)"
      by (simp only: closed(2) afterLines_pages)
    finally show ?thesis .
  qed
  show "let lines = splitLines (trim (textContent n));
          lh = getLineHeight FONT_SIZE_CODE;
          s2 = checkPageBreak (min (real (length lines) * lh + 20) 100) (addSpace 8 s);
          places = placeLines (pageHeight s) lh (pageCount s2) (cursor_y s2 + 10) (length lines)
      in map shape (added s (preBlock n s)) =
           DrawRoundedRect MARGIN (cursor_y s2 - 5) (contentWidth s)
             (real (length lines) * lh + 20) 4 4 Fill
           # map (\<lambda>(l, pg, y1). DrawText (if l \<noteq> [] then l else [32]) (MARGIN + 10) y1)
               (zip lines places)
         \<and> map onPage (added s (preBlock n s)) = pageCount s2 # map fst places
         \<and> length places = length lines
         \<and> (MARGIN + lh \<le> pageHeight s - MARGIN \<longrightarrow>
              list_all (\<lambda>(pg, y1). y1 + lh \<le> pageHeight s - MARGIN) places)
         \<and> (cursor_y s + 18 + real (length lines) * lh > pageHeight s - MARGIN \<longrightarrow>
              pageCount s < pageCount (preBlock n s))"
    unfolding Let_def using shapes pages len fit break by blast
qed


text \<open>Eight lines of code from cursor 632 on a letter page: six lines on the first page,
  two on the second.\<close>

theorem code_lines_are_checked_one_by_one_witness:
  "trim (textContent eightLines) \<noteq> []
   \<and> map shape (added (addSpace 582 (initialLayout letterDoc))
         (preBlock eightLines (addSpace 582 (initialLayout letterDoc)))) =
       [DrawRoundedRect 50 635 512 132 4 4 Fill,
        DrawText (js ''1'') 60 650, DrawText (js ''2'') 60 664, DrawText (js ''3'') 60 678,
        DrawText (js ''4'') 60 692, DrawText (js ''5'') 60 706, DrawText (js ''6'') 60 720,
        DrawText (js ''7'') 60 50, DrawText (js ''8'') 60 64]
   \<and> map onPage (added (addSpace 582 (initialLayout letterDoc))
         (preBlock eightLines (addSpace 582 (initialLayout letterDoc)))) =
       [1, 1, 1, 1, 1, 1, 1, 2, 2]
   \<and> pageCount (addSpace 582 (initialLayout letterDoc)) <
       pageCount (preBlock eightLines (addSpace 582 (initialLayout letterDoc)))"
proof -
  let ?s = "addSpace 582 (initialLayout letterDoc)"
  have content: "trim (textContent eightLines) =
      js ''1'' @ [10] @ js ''2'' @ [10] @ js ''3'' @ [10] @ js ''4'' @ [10] @
      js ''5'' @ [10] @ js ''6'' @ [10] @ js ''7'' @ [10] @ js ''8''"
    by (simp add: eightLines_def textContent_def trim_def isWhiteSpace_def js_def)
  have lines: "splitLines (trim (textContent eightLines)) =
      [js ''1'', js ''2'', js ''3'', js ''4'', js ''5'', js ''6'', js ''7'', js ''8'']"
    by (simp add: content js_def)
  have code: "trim (textContent eightLines) \<noteq> []"
    by (simp add: content js_def)
  have state: "cursor_y ?s = 632" "pageHeight ?s = 792" "pageCount ?s = 1"
    by (simp_all add: addSpace_def initialLayout_def jsPDF.extend_def layout.fields_def
        letterDoc_def MARGIN_def)
  have over: "cursor_y ?s + 18 + real (length (splitLines (trim (textContent eightLines)))) *
      getLineHeight FONT_SIZE_CODE > pageHeight ?s - MARGIN"
    by (simp add: lines state getLineHeight_def FONT_SIZE_CODE_def MARGIN_def)
  have count: "pageCount ?s < pageCount (preBlock eightLines ?s)"
    using code_lines_are_checked_one_by_one [of eightLines ?s] code over
    unfolding Let_def by blast
  show ?thesis
    using code count
    by (simp add: preBlock_drawn(1) [OF code] lines state added_def getLineHeight_def
        FONT_SIZE_CODE_def MARGIN_def contentWidth_def step_defs initialLayout_def
        jsPDF.extend_def layout.fields_def letterDoc_def js_def eval_nat_numeral)
qed

subsection \<open>Tables\<close>

lemma tableRow_drawn:
  fixes sp :: splitter and row :: node and s :: layout and cw rh :: real and cols :: nat
  defines "cells \<equiv> querySelectorAll [''th'', ''td''] row"
    and "isHeader \<equiv> querySelectorAll [''th''] row \<noteq> []"
    and "s1 \<equiv> checkPageBreak rh s"
  defines "style \<equiv> (if isHeader then ''bold'' else ''normal'')"
  defines "cellPen \<equiv> (if isHeader then (gfx s)\<lparr>fillColor := (240, 240, 240)\<rparr> else gfx s)
                        \<lparr>fontSize := FONT_SIZE_BODY, fontFamily := ''helvetica'',
                         fontStyle := style\<rparr>"
  defines "borderPen \<equiv> (if cells = [] then (if isHeader then (gfx s)\<lparr>fillColor := (240, 240, 240)\<rparr> else gfx s) else cellPen)
                        \<lparr>drawColor := (200, 200, 200), lineWidth := 0.5\<rparr>"
  shows "drawn (tableRow sp cols cw rh row s) =
     drawn s
     @ (if isHeader
        then [\<lparr>onPage = pageCount s1, pen = (gfx s)\<lparr>fillColor := (240, 240, 240)\<rparr>,
               shape = DrawRect MARGIN (cursor_y s1) (contentWidth s) rh Fill\<rparr>]
        else [])
     @ map (\<lambda>(k, cell).
              \<lparr>onPage = pageCount s1, pen = cellPen,
               shape = DrawText
                 (firstLine (sp ''helvetica'' style FONT_SIZE_BODY
                               (trim (extractText (fst cell) 0 (snd cell))) (cw - 10)))
                 (MARGIN + real k * cw + 5) (cursor_y s1 + rh / 2 + 3)\<rparr>)
         (enumerate 0 cells)
     @ \<lparr>onPage = pageCount s1, pen = borderPen,
         shape = DrawRect MARGIN (cursor_y s1) (contentWidth s) rh Stroke\<rparr>
     # map (\<lambda>k. \<lparr>onPage = pageCount s1, pen = borderPen,
                  shape = DrawLine (MARGIN + real k * cw) (cursor_y s1)
                                   (MARGIN + real k * cw) (cursor_y s1 + rh)\<rparr>)
         [1..<cols]"
  unfolding cells_def isHeader_def s1_def style_def cellPen_def borderPen_def
  by (simp add: tableRow_def Let_def tableCells_drawn tableCells_gfx columnBorders_drawn
      surface_defs contentWidth_def)

text \<open>
  Claim C6. A table row is drawn as follows, at the cursor that the page-break check for
  the row leaves. If the row has a \<open>th\<close> descendant, first a filled rectangle over the
  row, with fill colour (240, 240, 240). Then for the cell number \<open>k\<close> (from 0) the first
  line only of its wrapped text, or the empty text, at \<open>MARGIN + k * colWidth + 5\<close>, in
  helvetica of body size, bold in a row with a \<open>th\<close> and normal otherwise. Then the
  stroked rectangle of the row and a vertical line between the columns. For a table with
  at least one row, every row is drawn with \<open>colWidth = contentWidth / cols\<close>, where
  \<open>cols\<close> is the number of cells of the first row (1 if it has none).
\<close>

theorem table_rows_and_columns:
  "(let cells = querySelectorAll [''th'', ''td''] row;
        isHeader = (querySelectorAll [''th''] row \<noteq> []);
        style = (if isHeader then ''bold'' else ''normal'');
        y1 = cursor_y (checkPageBreak rh s)
    in map shape (added s (tableRow sp cols cw rh row s)) =
         (if isHeader then [DrawRect MARGIN y1 (contentWidth s) rh Fill] else [])
         @ map (\<lambda>(k, cell).
                  DrawText
                    (firstLine (sp ''helvetica'' style FONT_SIZE_BODY
                                  (trim (extractText (fst cell) 0 (snd cell))) (cw - 10)))
                    (MARGIN + real k * cw + 5) (y1 + rh / 2 + 3))
             (enumerate 0 cells)
         @ DrawRect MARGIN y1 (contentWidth s) rh Stroke
         # map (\<lambda>k. DrawLine (MARGIN + real k * cw) y1 (MARGIN + real k * cw) (y1 + rh))
             [1..<cols]
       \<and> map (\<lambda>e. (fontFamily (pen e), fontStyle (pen e), fontSize (pen e)))
             (filter (\<lambda>e. isText (shape e)) (added s (tableRow sp cols cw rh row s))) =
           replicate (length cells) (''helvetica'', style, FONT_SIZE_BODY)
       \<and> (isHeader \<longrightarrow>
            fillColor (pen (hd (added s (tableRow sp cols cw rh row s)))) = (240, 240, 240)))
   \<and> (querySelectorAll [''tr''] n = row0 # rest \<longrightarrow>
        tableBlock sp n s =
          (let len = length (querySelectorAll [''th'', ''td''] (snd row0));
               cols = (if len \<noteq> 0 then len else 1)
           in addSpace 10
                (tableRows sp cols (contentWidth s / real cols)
                   (getLineHeight FONT_SIZE_BODY + 12) (map snd (row0 # rest)) (addSpace 10 s))))"
proof -
  note closed = tableRow_drawn [of sp cols cw rh row s]
  have row: "map shape (added s (tableRow sp cols cw rh row s)) =
         (if querySelectorAll [''th''] row \<noteq> []
          then [DrawRect MARGIN (cursor_y (checkPageBreak rh s)) (contentWidth s) rh Fill] else [])
         @ map (\<lambda>(k, cell).
                  DrawText
                    (firstLine (sp ''helvetica''
                       (if querySelectorAll [''th''] row \<noteq> [] then ''bold'' else ''normal'')
                       FONT_SIZE_BODY (trim (extractText (fst cell) 0 (snd cell))) (cw - 10)))
                    (MARGIN + real k * cw + 5) (cursor_y (checkPageBreak rh s) + rh / 2 + 3))
             (enumerate 0 (querySelectorAll [''th'', ''td''] row))
         @ DrawRect MARGIN (cursor_y (checkPageBreak rh s)) (contentWidth s) rh Stroke
         # map (\<lambda>k. DrawLine (MARGIN + real k * cw) (cursor_y (checkPageBreak rh s))
                        (MARGIN + real k * cw) (cursor_y (checkPageBreak rh s) + rh))
             [1..<cols]"
    by (simp add: added_def closed o_def split_def)
  have pens: "map (\<lambda>e. (fontFamily (pen e), fontStyle (pen e), fontSize (pen e)))
             (filter (\<lambda>e. isText (shape e)) (added s (tableRow sp cols cw rh row s))) =
           replicate (length (querySelectorAll [''th'', ''td''] row))
             (''helvetica'',
              (if querySelectorAll [''th''] row \<noteq> [] then ''bold'' else ''normal''),
              FONT_SIZE_BODY)"
    by (simp add: added_def closed filter_map o_def split_def map_replicate_const)
  have fill: "querySelectorAll [''th''] row \<noteq> [] \<Longrightarrow>
      fillColor (pen (hd (added s (tableRow sp cols cw rh row s)))) = (240, 240, 240)"
    by (simp add: added_def closed)
  have whole: "querySelectorAll [''tr''] n = row0 # rest \<Longrightarrow>
        tableBlock sp n s =
          (let len = length (querySelectorAll [''th'', ''td''] (snd row0));
               cols = (if len \<noteq> 0 then len else 1)
           in addSpace 10
                (tableRows sp cols (contentWidth s / real cols)
                   (getLineHeight FONT_SIZE_BODY + 12) (map snd (row0 # rest)) (addSpace 10 s)))"
    by (simp add: tableBlock_def Let_def contentWidth_def addSpace_def)
  show ?thesis
    unfolding Let_def
    by (intro conjI impI) (rule row, rule pens, erule fill, erule whole [unfolded Let_def])
qed

text \<open>The table of three columns on a letter page: the columns are 512 / 3 wide.\<close>

theorem table_rows_and_columns_witness:
  "shapes (tableBlock noWrap threeColumns (initialLayout letterDoc)) =
     [DrawRect 50 60 512 27.4 Fill,
      DrawText (js ''A'') 55 76.7, DrawText (js ''B'') (677 / 3) 76.7,
      DrawText (js ''C'') (1189 / 3) 76.7,
      DrawRect 50 60 512 27.4 Stroke,
      DrawLine (662 / 3) 60 (662 / 3) 87.4, DrawLine (1174 / 3) 60 (1174 / 3) 87.4,
      DrawText (js ''1'') 55 104.1, DrawText (js ''2'') (677 / 3) 104.1,
      DrawText (js ''3'') (1189 / 3) 104.1,
      DrawRect 50 87.4 512 27.4 Stroke,
      DrawLine (662 / 3) 87.4 (662 / 3) 114.8, DrawLine (1174 / 3) 87.4 (1174 / 3) 114.8]
   \<and> map (\<lambda>e. fontStyle (pen e))
         (filter (\<lambda>e. isText (shape e)) (drawn (tableBlock noWrap threeColumns (initialLayout letterDoc)))) =
       [''bold'', ''bold'', ''bold'', ''normal'', ''normal'', ''normal'']
   \<and> tableBlock noWrap threeColumns (initialLayout letterDoc) =
       addSpace 10
         (tableRows noWrap 3 (contentWidth (initialLayout letterDoc) / 3)
            (getLineHeight FONT_SIZE_BODY + 12)
            (map snd (querySelectorAll [''tr''] threeColumns))
            (addSpace 10 (initialLayout letterDoc)))
   \<and> fillColor (pen (hd (added (addSpace 10 (initialLayout letterDoc))
         (tableRow noWrap 3 (512 / 3) 27.4
            (Element ''tr'' []
               [Element ''th'' [] [Text (js ''A'')], Element ''th'' [] [Text (js ''B'')],
                Element ''th'' [] [Text (js ''C'')]])
            (addSpace 10 (initialLayout letterDoc)))))) = (240, 240, 240)"
proof -
  let ?head = "Element ''tr'' []
               [Element ''th'' [] [Text (js ''A'')], Element ''th'' [] [Text (js ''B'')],
                Element ''th'' [] [Text (js ''C'')]]"
  let ?body = "Element ''tr'' []
               [Element ''td'' [] [Text (js ''1'')], Element ''td'' [] [Text (js ''2'')],
                Element ''td'' [] [Text (js ''3'')]]"
  have rows: "querySelectorAll [''tr''] threeColumns = (''thead'', ?head) # [(''tbody'', ?body)]"
    by (simp add: querySelectorAll_def threeColumns_def)
  have cells: "length (querySelectorAll [''th'', ''td''] ?head) = 3"
    by (simp add: querySelectorAll_def)
  have header: "querySelectorAll [''th''] ?head \<noteq> []"
    by (simp add: querySelectorAll_def)
  note general = table_rows_and_columns [of ?head "27.4" "addSpace 10 (initialLayout letterDoc)"
      noWrap 3 "512 / 3" threeColumns "(''thead'', ?head)" "[(''tbody'', ?body)]",
      unfolded Let_def]
  have whole: "tableBlock noWrap threeColumns (initialLayout letterDoc) =
       addSpace 10
         (tableRows noWrap 3 (contentWidth (initialLayout letterDoc) / 3)
            (getLineHeight FONT_SIZE_BODY + 12)
            (map snd (querySelectorAll [''tr''] threeColumns))
            (addSpace 10 (initialLayout letterDoc)))"
    using table_rows_and_columns [of ?head "27.4" "initialLayout letterDoc"
      noWrap 3 "512 / 3" threeColumns "(''thead'', ?head)" "[(''tbody'', ?body)]",
      unfolded Let_def, THEN conjunct2, rule_format, OF rows]
    by (simp only: rows cells snd_conv) simp
  have fill: "fillColor (pen (hd (added (addSpace 10 (initialLayout letterDoc))
         (tableRow noWrap 3 (512 / 3) 27.4 ?head (addSpace 10 (initialLayout letterDoc)))))) =
       (240, 240, 240)"
    using general header by blast
  have drawn: "shapes (tableBlock noWrap threeColumns (initialLayout letterDoc)) =
     [DrawRect 50 60 512 27.4 Fill,
      DrawText (js ''A'') 55 76.7, DrawText (js ''B'') (677 / 3) 76.7,
      DrawText (js ''C'') (1189 / 3) 76.7,
      DrawRect 50 60 512 27.4 Stroke,
      DrawLine (662 / 3) 60 (662 / 3) 87.4, DrawLine (1174 / 3) 60 (1174 / 3) 87.4,
      DrawText (js ''1'') 55 104.1, DrawText (js ''2'') (677 / 3) 104.1,
      DrawText (js ''3'') (1189 / 3) 104.1,
      DrawRect 50 87.4 512 27.4 Stroke,
      DrawLine (662 / 3) 87.4 (662 / 3) 114.8, DrawLine (1174 / 3) 87.4 (1174 / 3) 114.8]"
    by (simp add: eval_more threeColumns_def upt_rec)
  have styles: "map (\<lambda>e. fontStyle (pen e))
         (filter (\<lambda>e. isText (shape e)) (drawn (tableBlock noWrap threeColumns (initialLayout letterDoc)))) =
       [''bold'', ''bold'', ''bold'', ''normal'', ''normal'', ''normal'']"
    by (simp add: eval_more threeColumns_def upt_rec)
  show ?thesis
    using drawn styles whole fill by blast
qed

end
